theory Spec2Isabelle
  imports Complex_Main "HOL-Library.Word"
begin

section \<open>Python and array primitives used by \<open>src/data/datasets.py\<close>\<close>

text \<open>
  Exceptions are values: a function of the source that can raise returns
  \<open>py_error + 'a\<close>, with \<open>Inl\<close> for the exception.
\<close>

datatype py_error =
  AssertionError | ZeroDivisionError | RuntimeError | ValueError
  | KeyError | IndexError | UnboundLocalError | OverflowError

text \<open>
  Python slicing on one axis. A bound is an \<open>int\<close>; a negative bound counts from the
  end, every bound is clipped to the axis, and \<open>-0\<close> is \<open>0\<close>: \<open>xs[:-0]\<close> is
  \<open>xs[:0]\<close>, the empty slice.
\<close>

definition clip_index :: "int \<Rightarrow> nat \<Rightarrow> nat" where
  "clip_index i n = (if i < 0 then nat (int n + i) else min (nat i) n)"

definition py_slice :: "int \<Rightarrow> int \<Rightarrow> 'a list \<Rightarrow> 'a list" where
  \<comment> \<open>\<open>xs[a:b]\<close>\<close>
  "py_slice a b xs =
     (let n = length xs; s = clip_index a n; e = clip_index b n
      in take (e - s) (drop s xs))"

definition py_slice_start :: "int \<Rightarrow> 'a list \<Rightarrow> 'a list" where
  \<comment> \<open>\<open>xs[a:]\<close>\<close>
  "py_slice_start a xs = drop (clip_index a (length xs)) xs"

definition py_slice_stop :: "int \<Rightarrow> 'a list \<Rightarrow> 'a list" where
  \<comment> \<open>\<open>xs[:b]\<close>\<close>
  "py_slice_stop b xs = take (clip_index b (length xs)) xs"

section \<open>Floats\<close>

text \<open>
  A Python or numpy float is an IEEE 754 double: a rational that a double can hold,
  an infinity or a NaN. Every arithmetic operation gives the exact result rounded to
  the nearest double, ties to even (\<open>round64\<close>): for \<open>x\<close> with \<open>2 ^ e \<le> |x| < 2 ^ (e + 1)\<close>
  the doubles around \<open>x\<close> are the multiples of \<open>2 ^ (e - 52)\<close>, of \<open>2 ^ -1074\<close> below the
  normal range, and a rounded value of \<open>2 ^ 1024\<close> or more is an infinity. The sign of
  a zero is not modelled; nothing here divides by a float or prints one.
\<close>

datatype float64 = Finite rat | PosInf | NegInf | NaN

fun bit_length :: "nat \<Rightarrow> nat" where
  "bit_length n = (if n = 0 then 0 else Suc (bit_length (n div 2)))"

declare bit_length.simps [simp del]

definition floor_log2 :: "rat \<Rightarrow> int" where
  \<comment> \<open>for \<open>x > 0\<close>, the \<open>e\<close> with \<open>2 ^ e \<le> x < 2 ^ (e + 1)\<close>\<close>
  "floor_log2 x =
     (if 1 \<le> x then int (bit_length (nat \<lfloor>x\<rfloor>)) - 1
      else - int (bit_length (nat (\<lceil>1 / x\<rceil> - 1))))"

definition two_powi :: "int \<Rightarrow> rat" where
  "two_powi k = (if 0 \<le> k then 2 ^ nat k else 1 / 2 ^ nat (- k))"

definition round_half_even :: "rat \<Rightarrow> int" where
  "round_half_even y =
     (let f = \<lfloor>y\<rfloor>; d = y - of_int f
      in if d < 1 / 2 then f else if 1 / 2 < d then f + 1 else if even f then f else f + 1)"

definition round64 :: "rat \<Rightarrow> float64" where
  "round64 x =
     (if x = 0 then Finite 0
      else
        (let q = max (floor_log2 \<bar>x\<bar> - 52) (- 1074);
             r = of_int (round_half_even (\<bar>x\<bar> / two_powi q)) * two_powi q
         in if 2 ^ 1024 \<le> r then (if x < 0 then NegInf else PosInf)
            else Finite (if x < 0 then - r else r)))"

fun fneg :: "float64 \<Rightarrow> float64" where
  "fneg (Finite a) = Finite (- a)"
| "fneg PosInf = NegInf"
| "fneg NegInf = PosInf"
| "fneg NaN = NaN"

fun fadd :: "float64 \<Rightarrow> float64 \<Rightarrow> float64" where
  \<comment> \<open>\<open>x + y\<close>\<close>
  "fadd (Finite a) (Finite b) = round64 (a + b)"
| "fadd NaN y = NaN"
| "fadd x NaN = NaN"
| "fadd PosInf NegInf = NaN"
| "fadd NegInf PosInf = NaN"
| "fadd PosInf y = PosInf"
| "fadd NegInf y = NegInf"
| "fadd x PosInf = PosInf"
| "fadd x NegInf = NegInf"

definition fsub :: "float64 \<Rightarrow> float64 \<Rightarrow> float64" where
  \<comment> \<open>\<open>x - y\<close>\<close>
  "fsub x y = fadd x (fneg y)"

fun fsign :: "float64 \<Rightarrow> int" where
  "fsign (Finite a) = (if 0 < a then 1 else if a < 0 then - 1 else 0)"
| "fsign PosInf = 1"
| "fsign NegInf = - 1"
| "fsign NaN = 0"

fun fmul :: "float64 \<Rightarrow> float64 \<Rightarrow> float64" where
  \<comment> \<open>\<open>x * y\<close>: an infinity times zero is a NaN\<close>
  "fmul (Finite a) (Finite b) = round64 (a * b)"
| "fmul NaN y = NaN"
| "fmul x NaN = NaN"
| "fmul x y =
     (if fsign x * fsign y = 0 then NaN else if 0 < fsign x * fsign y then PosInf else NegInf)"

text \<open>
  \<open>float(n)\<close>, as in \<open>n * x\<close> and \<open>n + x\<close> with an int \<open>n\<close>. (Python raises OverflowError
  for an int of \<open>2 ^ 1024\<close> or more; the ints converted here are the fields of a
  timestamp, a sample rate and the constant 1000.)
\<close>

definition float_of_int :: "int \<Rightarrow> float64" where
  "float_of_int n = round64 (of_int n)"

text \<open>\<open>int(x)\<close> of a float truncates towards zero, and raises on an infinity or a NaN.\<close>

definition py_int :: "rat \<Rightarrow> int" where
  "py_int q = (if 0 \<le> q then \<lfloor>q\<rfloor> else \<lceil>q\<rceil>)"

fun py_int_of_float :: "float64 \<Rightarrow> py_error + int" where
  "py_int_of_float (Finite a) = Inr (py_int a)"
| "py_int_of_float PosInf = Inl OverflowError"
| "py_int_of_float NegInf = Inl OverflowError"
| "py_int_of_float NaN = Inl ValueError"

text \<open>
  A tensor or array carries its shape, as \<open>X.shape\<close> does, beside its entries in
  row-major nesting. The shape is what the source reads when an axis is empty.
\<close>

record 'a tensor2 =
  shape2 :: "nat \<times> nat"
  data2 :: "'a list list"

record 'a tensor3 =
  shape3 :: "nat \<times> nat \<times> nat"
  data3 :: "'a list list list"

definition wf2 :: "'a tensor2 \<Rightarrow> bool" where
  "wf2 Y = (case shape2 Y of (E, L) \<Rightarrow>
     length (data2 Y) = E \<and> list_all (\<lambda>r. length r = L) (data2 Y))"

definition wf3 :: "'a tensor3 \<Rightarrow> bool" where
  "wf3 X = (case shape3 X of (S, C, L) \<Rightarrow>
     length (data3 X) = S \<and>
     list_all (\<lambda>m. length m = C \<and> list_all (\<lambda>r. length r = L) m) (data3 X))"

text \<open>\<open>T[:, :, a:]\<close>, \<open>T[:, :, :b]\<close>, \<open>T[:, a:]\<close> and \<open>T[:, :b]\<close>: a slice of the last axis.\<close>

definition slice3_start :: "int \<Rightarrow> 'a tensor3 \<Rightarrow> 'a tensor3" where
  "slice3_start a X = (case shape3 X of (S, C, L) \<Rightarrow>
     \<lparr>shape3 = (S, C, L - clip_index a L),
      data3 = map (map (py_slice_start a)) (data3 X)\<rparr>)"

definition slice3_stop :: "int \<Rightarrow> 'a tensor3 \<Rightarrow> 'a tensor3" where
  "slice3_stop b X = (case shape3 X of (S, C, L) \<Rightarrow>
     \<lparr>shape3 = (S, C, clip_index b L),
      data3 = map (map (py_slice_stop b)) (data3 X)\<rparr>)"

definition slice2_stop :: "int \<Rightarrow> 'a tensor2 \<Rightarrow> 'a tensor2" where
  "slice2_stop b Y = (case shape2 Y of (E, L) \<Rightarrow>
     \<lparr>shape2 = (E, clip_index b L),
      data2 = map (py_slice_stop b) (data2 Y)\<rparr>)"

text \<open>
  \<open>row.reshape(-1, W)\<close> for a row whose length is a multiple of \<open>W > 0\<close>: window \<open>k\<close>
  holds the entries \<open>k * W, ..., k * W + W - 1\<close> of the row.
\<close>

definition windows :: "nat \<Rightarrow> 'a list \<Rightarrow> 'a list list" where
  "windows W xs = map (\<lambda>k. take W (drop (k * W) xs)) [0..<length xs div W]"

text \<open>
  \<open>T.permute(1, 0, 2)\<close> (numpy \<open>transpose(1, 0, 2)\<close>) of a block of shape \<open>(C, n, W)\<close>,
  given as \<open>C\<close> rows of \<open>n\<close> windows: the result has shape \<open>(n, C, W)\<close>. The number
  \<open>n\<close> comes from the shape, so that a block with no row still has \<open>n\<close> entries.
\<close>

definition permute102 :: "nat \<Rightarrow> 'a list list \<Rightarrow> 'a list list" where
  "permute102 n rows = map (\<lambda>k. map (\<lambda>row. row ! k) rows) [0..<n]"

section \<open>\<open>shift_brain_signal\<close>\<close>

text \<open>
  \<^verbatim>\<open>shift = int(srate * (shift / 1000)); X = X[:, :, shift:]; Y = Y[:, :-shift]\<close>
  The sample rate is a float (the default 135 is the float 135.0 in the product) and
  the shift in milliseconds is an int: \<open>shift / 1000\<close> is the quotient of two ints
  rounded to a double, which Python refuses when it is too large for one.
\<close>

definition shift_samples :: "float64 \<Rightarrow> int \<Rightarrow> py_error + int" where
  "shift_samples srate shift =
     (case round64 (of_int shift / 1000) of
        Finite q \<Rightarrow> py_int_of_float (fmul srate (Finite q))
      | _ \<Rightarrow> Inl OverflowError)"

definition shift_brain_signal ::
  "'a tensor3 \<Rightarrow> 'b tensor2 \<Rightarrow> float64 \<Rightarrow> int \<Rightarrow> py_error + ('a tensor3 \<times> 'b tensor2)" where
  "shift_brain_signal X Y srate shift =
     (case shift_samples srate shift of
        Inl e \<Rightarrow> Inl e
      | Inr shift' \<Rightarrow> Inr (slice3_start shift' X, slice2_stop (- shift') Y))"


section \<open>\<open>Brennan2018Dataset.batchfy\<close>\<close>

text \<open>
  \<open>T.reshape(..., -1, ...)\<close>: the inferred axis is the number of entries divided by the
  product of the given axes. torch and numpy both refuse a product of zero and a
  product that does not divide the number of entries.
\<close>

definition infer_dim :: "nat \<Rightarrow> nat \<Rightarrow> nat option" where
  "infer_dim numel known =
     (if known = 0 \<or> numel mod known \<noteq> 0 then None else Some (numel div known))"

text \<open>
  The result is the flat list of brain windows (each \<open>C\<close> rows of \<open>seq_len\<close> samples),
  the flat list of audio windows and the subject index of every window. A negative
  \<open>seq_len\<close> gets through \<open>%\<close> and the slices and is refused by \<open>reshape\<close>.
\<close>

definition batchfy ::
  "'a tensor3 \<Rightarrow> 'b tensor2 \<Rightarrow> int \<Rightarrow>
   py_error + ('a list list list \<times> 'b list list list \<times> nat list)" where
  "batchfy X Y seq_len =
     (let S = fst (shape3 X); C = fst (snd (shape3 X)); L = snd (snd (shape3 X));
          E = fst (shape2 Y); L' = snd (shape2 Y)
      in
      if L \<noteq> L' then Inl AssertionError
      else if seq_len = 0 then Inl ZeroDivisionError
      else
        (let trim_len = int L - int L mod seq_len;
             X1 = slice3_stop trim_len X;
             Y1 = slice2_stop trim_len Y;
             L1 = snd (snd (shape3 X1))
         in if seq_len < 0 then Inl RuntimeError
            else
              (case infer_dim (S * C * L1) (S * C * nat seq_len) of
                 None \<Rightarrow> Inl RuntimeError
               | Some n \<Rightarrow>
                   (case infer_dim (E * L1) (E * nat seq_len) of
                      None \<Rightarrow> Inl RuntimeError
                    | Some n' \<Rightarrow>
                        (let X2 = map (map (windows (nat seq_len))) (data3 X1);
                             Y2 = map (windows (nat seq_len)) (data2 Y1);
                             Y3 = replicate S Y2;
                             X4 = map (permute102 n) X2;
                             Y4 = map (permute102 n') Y3;
                             subject_idxs = concat (map (replicate n) [0..<S])
                         in Inr (concat X4, concat Y4, subject_idxs))))))"

text \<open>\<open>xs[i]\<close> on the leading axis: a negative index counts from the end.\<close>

definition py_index :: "'a list \<Rightarrow> int \<Rightarrow> py_error + 'a" where
  "py_index xs i =
     (if 0 \<le> i \<and> i < int (length xs) then Inr (xs ! nat i)
      else if i < 0 \<and> - int (length xs) \<le> i then Inr (xs ! nat (int (length xs) + i))
      else Inl IndexError)"

text \<open>\<open>__len__\<close> and \<open>__getitem__\<close> of the datasets, on the three stored sequences.\<close>

definition dataset_len :: "'x list \<times> 'y list \<times> 'i list \<Rightarrow> nat" where
  "dataset_len ds = length (fst ds)"

definition getitem :: "'x list \<times> 'y list \<times> 'i list \<Rightarrow> int \<Rightarrow> py_error + ('x \<times> 'y \<times> 'i)" where
  "getitem ds i =
     (case py_index (fst ds) i of
        Inl e \<Rightarrow> Inl e
      | Inr x \<Rightarrow>
          (case py_index (fst (snd ds)) i of
             Inl e \<Rightarrow> Inl e
           | Inr y \<Rightarrow>
               (case py_index (snd (snd ds)) i of
                  Inl e \<Rightarrow> Inl e
                | Inr s \<Rightarrow> Inr (x, y, s))))"

section \<open>Strings: recording keys of \<open>Gwilliams2022Dataset\<close>\<close>

definition digit_char :: "nat \<Rightarrow> char" where
  "digit_char d = char_of (48 + d)"

fun str_nat :: "nat \<Rightarrow> string" where
  \<comment> \<open>\<open>str(n)\<close> of a non-negative integer\<close>
  "str_nat n = (if n < 10 then [digit_char n] else str_nat (n div 10) @ [digit_char (n mod 10)])"

declare str_nat.simps [simp del]

definition zfill :: "nat \<Rightarrow> string \<Rightarrow> string" where
  \<comment> \<open>\<open>s.zfill(w)\<close> of a string with no sign\<close>
  "zfill w s = replicate (w - length s) (CHR ''0'') @ s"

text \<open>
  \<^verbatim>\<open>f"subject{str(subject_idx+1).zfill(2)}_sess{session_idx}_task{task_idx}"\<close>
\<close>

definition description :: "nat \<Rightarrow> nat \<Rightarrow> nat \<Rightarrow> string" where
  "description subject_idx session_idx task_idx =
     ''subject'' @ zfill 2 (str_nat (subject_idx + 1)) @ ''_sess'' @ str_nat session_idx
       @ ''_task'' @ str_nat task_idx"

fun py_split :: "char \<Rightarrow> string \<Rightarrow> string list" where
  \<comment> \<open>\<open>s.split(c)\<close>: never empty\<close>
  "py_split c [] = [[]]"
| "py_split c (x # xs) =
     (if x = c then [] # py_split c xs
      else case py_split c xs of [] \<Rightarrow> [[x]] | p # ps \<Rightarrow> (x # p) # ps)"

definition is_space :: "char \<Rightarrow> bool" where
  "is_space c = (let n = (of_char c :: nat) in (9 \<le> n \<and> n \<le> 13) \<or> (28 \<le> n \<and> n \<le> 32))"

definition digit_val :: "char \<Rightarrow> nat option" where
  "digit_val c = (let n = (of_char c :: nat) in if 48 \<le> n \<and> n \<le> 57 then Some (n - 48) else None)"

fun digits_val :: "nat \<Rightarrow> string \<Rightarrow> nat option" where
  \<comment> \<open>decimal digits, a single underscore allowed between two digits\<close>
  "digits_val acc [] = None"
| "digits_val acc (c # cs) =
     (case digit_val c of
        None \<Rightarrow> None
      | Some d \<Rightarrow>
          (case cs of
             [] \<Rightarrow> Some (10 * acc + d)
           | c' # cs' \<Rightarrow>
               if c' = CHR ''_'' then digits_val (10 * acc + d) cs'
               else digits_val (10 * acc + d) cs))"

definition py_int_of_str :: "string \<Rightarrow> py_error + int" where
  \<comment> \<open>\<open>int(s)\<close> of an ASCII string: blanks around, an optional sign, decimal digits\<close>
  "py_int_of_str s =
     (let t = rev (dropWhile is_space (rev (dropWhile is_space s)))
      in case t of
           [] \<Rightarrow> Inl ValueError
         | c # cs \<Rightarrow>
             if c = CHR ''-'' then
               (case digits_val 0 cs of None \<Rightarrow> Inl ValueError | Some v \<Rightarrow> Inr (- int v))
             else if c = CHR ''+'' then
               (case digits_val 0 cs of None \<Rightarrow> Inl ValueError | Some v \<Rightarrow> Inr (int v))
             else
               (case digits_val 0 t of None \<Rightarrow> Inl ValueError | Some v \<Rightarrow> Inr (int v)))"

text \<open>\<^verbatim>\<open>int(key.split("_")[0][-2:]) - 1\<close>\<close>

definition subj_idx_of_key :: "string \<Rightarrow> py_error + int" where
  "subj_idx_of_key key =
     (case py_split (CHR ''_'') key of
        [] \<Rightarrow> Inl IndexError
      | p # _ \<Rightarrow>
          (case py_int_of_str (py_slice_start (- 2) p) of
             Inl e \<Rightarrow> Inl e
           | Inr v \<Rightarrow> Inr (v - 1)))"

text \<open>\<^verbatim>\<open>key.split("_")[-1]\<close>\<close>

definition task_of_key :: "string \<Rightarrow> string" where
  "task_of_key key = last (py_split (CHR ''_'') key)"

section \<open>\<open>Gwilliams2022Dataset.batchfy\<close>\<close>

text \<open>
  \<^verbatim>\<open>trim_len = X.shape[-1] % self.meg_len; X = X[:, :-trim_len]
  X = X.reshape(X.shape[0], -1, self.meg_len).transpose(1, 0, 2)\<close>
  on a numpy array of shape \<open>(C, L)\<close>; the result is the number of windows and the
  windows, each \<open>C\<close> rows of \<open>meg_len\<close> samples.
\<close>

definition gw_brain_windows :: "int \<Rightarrow> 'a tensor2 \<Rightarrow> py_error + (nat \<times> 'a list list list)" where
  "gw_brain_windows meg_len X =
     (let C = fst (shape2 X); L = snd (shape2 X)
      in
      if meg_len = 0 then Inl ZeroDivisionError
      else
        (let trim_len = int L mod meg_len;
             X1 = slice2_stop (- trim_len) X;
             L1 = snd (shape2 X1)
         in if meg_len < 0 then Inl ValueError
            else
              (case infer_dim (C * L1) (C * nat meg_len) of
                 None \<Rightarrow> Inl ValueError
               | Some n \<Rightarrow>
                   Inr (n, permute102 n (map (windows (nat meg_len)) (data2 X1))))))"

text \<open>
  \<^verbatim>\<open>trim_len = Y.shape[-1] % self.audio_len; Y = Y[:, :-trim_len]
  Y = Y.reshape(-1, self.audio_len)\<close>
  on a torch tensor of shape \<open>(channels, L)\<close>: the rows are laid end to end and cut
  into windows.
\<close>

definition gw_audio_windows :: "int \<Rightarrow> 'b tensor2 \<Rightarrow> py_error + 'b list list" where
  "gw_audio_windows audio_len Y =
     (let E = fst (shape2 Y); L = snd (shape2 Y)
      in
      if audio_len = 0 then Inl ZeroDivisionError
      else
        (let trim_len = int L mod audio_len;
             Y1 = slice2_stop (- trim_len) Y;
             L1 = snd (shape2 Y1)
         in if audio_len < 0 then Inl RuntimeError
            else
              (case infer_dim (E * L1) (nat audio_len) of
                 None \<Rightarrow> Inl RuntimeError
               | Some m \<Rightarrow> Inr (windows (nat audio_len) (concat (data2 Y1))))))"

text \<open>
  One pass of the loop over \<open>self.X.keys()\<close>: the channel count of the recording, its
  brain windows, its audio windows and its subject indices. The subject index is
  multiplied into a \<open>uint8\<close> tensor of ones, so it is stored modulo 256.
\<close>

record ('a, 'b) gw_block =
  chans :: nat
  brain :: "'a list list list"
  audio :: "'b list list"
  subj :: "8 word list"

definition gw_recording ::
  "int \<Rightarrow> int \<Rightarrow> (string \<times> 'b tensor2) list \<Rightarrow> string \<times> 'a tensor2 \<Rightarrow>
   py_error + ('a, 'b) gw_block" where
  "gw_recording meg_len audio_len Ydict kx =
     (let key = fst kx; X = snd kx
      in
      (case gw_brain_windows meg_len X of
         Inl e \<Rightarrow> Inl e
       | Inr nXw \<Rightarrow>
           (case map_of Ydict (task_of_key key) of
              None \<Rightarrow> Inl KeyError
            | Some Y \<Rightarrow>
                (case gw_audio_windows audio_len Y of
                   Inl e \<Rightarrow> Inl e
                 | Inr Yw \<Rightarrow>
                     if fst nXw \<noteq> length Yw then Inl AssertionError
                     else
                       (case subj_idx_of_key key of
                          Inl e \<Rightarrow> Inl e
                        | Inr subj_idx \<Rightarrow>
                            Inr \<lparr>chans = fst (shape2 X), brain = snd nXw, audio = Yw,
                                 subj = replicate (fst nXw) (word_of_int subj_idx * 1)\<rparr>)))))"

fun gw_loop ::
  "int \<Rightarrow> int \<Rightarrow> (string \<times> 'b tensor2) list \<Rightarrow> (string \<times> 'a tensor2) list \<Rightarrow>
   py_error + ('a, 'b) gw_block list" where
  "gw_loop meg_len audio_len Ydict [] = Inr []"
| "gw_loop meg_len audio_len Ydict (kx # rest) =
     (case gw_recording meg_len audio_len Ydict kx of
        Inl e \<Rightarrow> Inl e
      | Inr b \<Rightarrow>
          (case gw_loop meg_len audio_len Ydict rest of
             Inl e \<Rightarrow> Inl e
           | Inr bs \<Rightarrow> Inr (b # bs)))"

text \<open>
  The whole of \<open>batchfy\<close>: the loop, then \<open>torch.cat\<close> along the leading axis, which
  refuses an empty list and blocks whose channel counts differ.
\<close>

definition gw_batchfy ::
  "int \<Rightarrow> int \<Rightarrow> (string \<times> 'a tensor2) list \<Rightarrow> (string \<times> 'b tensor2) list \<Rightarrow>
   py_error + ('a list list list \<times> 'b list list \<times> 8 word list)" where
  "gw_batchfy meg_len audio_len Xdict Ydict =
     (case gw_loop meg_len audio_len Ydict Xdict of
        Inl e \<Rightarrow> Inl e
      | Inr bs \<Rightarrow>
          (case bs of
             [] \<Rightarrow> Inl RuntimeError
           | b # _ \<Rightarrow>
               if \<not> list_all (\<lambda>b'. chans b' = chans b) bs then Inl RuntimeError
               else Inr (concat (map brain bs), concat (map audio bs), concat (map subj bs))))"


section \<open>\<open>Gwilliams2022Dataset.brain_preproc\<close>: the keys of the recordings\<close>

text \<open>
  The loops over \<open>range(num_subjects)\<close>, \<open>range(2)\<close> and \<open>range(4)\<close>. Reading and
  conditioning a recording (mne, scikit-learn) is the parameter \<open>process\<close>:
  \<open>None\<close> when \<open>read_raw_bids\<close> raises and the recording is skipped, \<open>Some (Inl e)\<close>
  when a later step raises and the run stops, \<open>Some (Inr M)\<close> for the array stored
  under the recording's description. When nothing was stored, the name \<open>X\<close> is unbound
  at \<open>return X\<close>.
\<close>

definition recordings :: "nat \<Rightarrow> (nat \<times> nat \<times> nat) list" where
  "recordings num_subjects =
     concat (map (\<lambda>subject_idx.
       concat (map (\<lambda>session_idx.
         map (\<lambda>task_idx. (subject_idx, session_idx, task_idx)) [0..<4]) [0..<2]))
       [0..<num_subjects])"

fun preproc_loop ::
  "(nat \<Rightarrow> nat \<Rightarrow> nat \<Rightarrow> (py_error + 'a tensor2) option) \<Rightarrow> (nat \<times> nat \<times> nat) list \<Rightarrow>
   py_error + (string \<times> 'a tensor2) list" where
  "preproc_loop process [] = Inr []"
| "preproc_loop process (r # rest) =
     (case process (fst r) (fst (snd r)) (snd (snd r)) of
        None \<Rightarrow> preproc_loop process rest
      | Some (Inl e) \<Rightarrow> Inl e
      | Some (Inr M) \<Rightarrow>
          (case preproc_loop process rest of
             Inl e \<Rightarrow> Inl e
           | Inr X \<Rightarrow> Inr ((description (fst r) (fst (snd r)) (snd (snd r)), M) # X)))"

definition brain_preproc ::
  "nat \<Rightarrow> (nat \<Rightarrow> nat \<Rightarrow> nat \<Rightarrow> (py_error + 'a tensor2) option) \<Rightarrow>
   py_error + (string \<times> 'a tensor2) list" where
  "brain_preproc num_subjects process =
     (case preproc_loop process (recordings num_subjects) of
        Inl e \<Rightarrow> Inl e
      | Inr X \<Rightarrow> (case X of [] \<Rightarrow> Inl UnboundLocalError | _ # _ \<Rightarrow> Inr X))"

section \<open>\<open>Gwilliams2022Dataset.trim_nosound_regions\<close>\<close>

text \<open>
  An annotation has an onset (a pandas timestamp, of which \<open>to_second\<close> reads the
  minute, the second and the microsecond), a duration in seconds and a description:
  the dictionary that \<open>ast.literal_eval\<close> returns, or \<open>None\<close> when the text is not a
  literal. The fields of a timestamp are ints (a minute and a second below 60, a
  microsecond below 1000000), the duration is a float.
\<close>

datatype py_value = Num rat | Str string

record timestamp =
  minute :: nat
  second :: nat
  microsecond :: nat

record annotation =
  onset :: timestamp
  duration :: float64
  desc :: "(string \<times> py_value) list option"

text \<open>
  \<^verbatim>\<open>onset.minute * 60 + onset.second + onset.microsecond * 1e-6\<close>: the literal
  \<open>1e-6\<close> is the double nearest to \<open>1 / 1000000\<close>, the product and the sum are rounded.
\<close>

definition to_second :: "timestamp \<Rightarrow> float64" where
  "to_second ts =
     fadd (float_of_int (int (minute ts * 60 + second ts)))
          (fmul (float_of_int (int (microsecond ts))) (round64 (1 / 1000000)))"

definition sound_id_of :: "annotation \<Rightarrow> py_error + py_value" where
  "sound_id_of a =
     (case desc a of
        None \<Rightarrow> Inl ValueError
      | Some d \<Rightarrow> (case map_of d ''sound_id'' of None \<Rightarrow> Inl KeyError | Some v \<Rightarrow> Inr v))"

text \<open>
  The first loop: \<open>t\<close> is the position, \<open>prev\<close> is \<open>prev_sound_id\<close> and \<open>acc\<close> is
  \<open>starts_ends_t\<close>.
\<close>

fun scan_boundaries ::
  "int \<Rightarrow> py_value \<Rightarrow> int list \<Rightarrow> annotation list \<Rightarrow> py_error + int list" where
  "scan_boundaries t prev acc [] = Inr acc"
| "scan_boundaries t prev acc (a # rest) =
     (case sound_id_of a of
        Inl e \<Rightarrow> Inl e
      | Inr sid \<Rightarrow>
          if sid \<noteq> prev then scan_boundaries (t + 1) sid (acc @ [t - 1, t]) rest
          else scan_boundaries (t + 1) prev acc rest)"

fun pairs :: "'a list \<Rightarrow> ('a \<times> 'a) list" where
  "pairs (a # b # rest) = (a, b) # pairs rest"
| "pairs _ = []"

text \<open>
  \<^verbatim>\<open>starts_ends_t = starts_ends_t[1:] + [t]; np.reshape(starts_ends_t, (-1, 2))\<close>,
  where \<open>t\<close> is the last position of the loop: unbound when there is no annotation.
\<close>

definition segment_pairs :: "annotation list \<Rightarrow> py_error + (int \<times> int) list" where
  "segment_pairs annots =
     (case scan_boundaries 0 (Num (- 1)) [] annots of
        Inl e \<Rightarrow> Inl e
      | Inr starts_ends_t \<Rightarrow>
          if annots = [] then Inl UnboundLocalError
          else
            (let se = py_slice_start 1 starts_ends_t @ [int (length annots) - 1]
             in if length se mod 2 \<noteq> 0 then Inl ValueError else Inr (pairs se)))"

text \<open>\<open>df_annot.onset[k]\<close>: a lookup by label in a column indexed \<open>0, ..., T - 1\<close>.\<close>

definition series_get :: "annotation list \<Rightarrow> int \<Rightarrow> py_error + annotation" where
  "series_get annots k =
     (if 0 \<le> k \<and> k < int (length annots) then Inr (annots ! nat k) else Inl KeyError)"

definition slice2 :: "int \<Rightarrow> int \<Rightarrow> 'a tensor2 \<Rightarrow> 'a tensor2" where
  \<comment> \<open>\<open>T[:, a:b]\<close>\<close>
  "slice2 a b M = (case shape2 M of (C, L) \<Rightarrow>
     \<lparr>shape2 = (C, clip_index b L - clip_index a L),
      data2 = map (py_slice a b) (data2 M)\<rparr>)"

text \<open>
  The start and the end of a segment in seconds, for a pair of positions in the
  annotations: the onset of the first, and the onset of the second plus its duration.
\<close>

definition segment_start :: "annotation list \<Rightarrow> int \<times> int \<Rightarrow> float64" where
  "segment_start annots p = to_second (onset (annots ! nat (fst p)))"

definition segment_stop :: "annotation list \<Rightarrow> int \<times> int \<Rightarrow> float64" where
  "segment_stop annots p =
     fadd (to_second (onset (annots ! nat (snd p)))) (duration (annots ! nat (snd p)))"

text \<open>\<open>int(x * 1000)\<close>: the sample index taken for a time of \<open>x\<close> seconds.\<close>

definition index_ms :: "float64 \<Rightarrow> py_error + int" where
  "index_ms x = py_int_of_float (fmul x (float_of_int 1000))"

text \<open>
  An annotation whose onset, and whose onset plus duration, give an index: the two
  products are finite.
\<close>

definition times_convert :: "annotation \<Rightarrow> bool" where
  "times_convert a =
     (\<not> isl (index_ms (to_second (onset a)))
      \<and> \<not> isl (index_ms (fadd (to_second (onset a)) (duration a))))"

text \<open>The second loop: one slice of the matrix and one duration for every pair.\<close>

fun cut_segments ::
  "'a tensor2 \<Rightarrow> annotation list \<Rightarrow> (int \<times> int) list \<Rightarrow>
   py_error + ('a tensor2 list \<times> float64 list)" where
  "cut_segments meg_raw annots [] = Inr ([], [])"
| "cut_segments meg_raw annots (p # rest) =
     (case series_get annots (fst p) of
        Inl e \<Rightarrow> Inl e
      | Inr a_start \<Rightarrow>
          (case series_get annots (snd p) of
             Inl e \<Rightarrow> Inl e
           | Inr a_end \<Rightarrow>
               (let start = to_second (onset a_start);
                    stop = fadd (to_second (onset a_end)) (duration a_end)
                in (case index_ms start of
                      Inl e \<Rightarrow> Inl e
                    | Inr a \<Rightarrow>
                        (case index_ms stop of
                           Inl e \<Rightarrow> Inl e
                         | Inr b \<Rightarrow>
                             (case cut_segments meg_raw annots rest of
                                Inl e \<Rightarrow> Inl e
                              | Inr r \<Rightarrow>
                                  Inr (slice2 a b meg_raw # fst r,
                                       fsub stop start # snd r)))))))"

definition concatenate_axis1 :: "'a tensor2 list \<Rightarrow> py_error + 'a tensor2" where
  \<comment> \<open>\<open>np.concatenate(Ts, axis=1)\<close>\<close>
  "concatenate_axis1 Ts =
     (case Ts of
        [] \<Rightarrow> Inl ValueError
      | T # _ \<Rightarrow>
          if \<not> list_all (\<lambda>T'. fst (shape2 T') = fst (shape2 T)) Ts then Inl ValueError
          else Inr \<lparr>shape2 = (fst (shape2 T), sum_list (map (\<lambda>T'. snd (shape2 T')) Ts)),
                    data2 = map (\<lambda>c. concat (map (\<lambda>T'. data2 T' ! c) Ts)) [0..<fst (shape2 T)]\<rparr>)"

definition trim_nosound_regions ::
  "'a tensor2 \<Rightarrow> annotation list \<Rightarrow> py_error + ('a tensor2 \<times> float64 list)" where
  "trim_nosound_regions meg_raw df_annot =
     (case segment_pairs df_annot of
        Inl e \<Rightarrow> Inl e
      | Inr starts_ends_t \<Rightarrow>
          (case cut_segments meg_raw df_annot starts_ends_t of
             Inl e \<Rightarrow> Inl e
           | Inr r \<Rightarrow>
               (case concatenate_axis1 (fst r) of
                  Inl e \<Rightarrow> Inl e
                | Inr meg_trimmed \<Rightarrow> Inr (meg_trimmed, snd r))))"

section \<open>\<open>Gwilliams2022Dataset.update_real_durations\<close>\<close>

text \<open>
  The state is the dictionary \<open>self.real_durations\<close>, as the list of its items, and
  what has been printed.
  \<open>np.allclose(a, b)\<close> compares \<open>|a - b|\<close> with \<open>atol + rtol * |b|\<close>, entry by entry
  after broadcasting, and raises when the two shapes cannot be broadcast. The recorded
  durations are finite doubles, held here by their exact values; the rounding inside
  the library call is not modelled.
\<close>

datatype printed = Msg string | Shown "rat list"







section \<open>\<open>Gwilliams2022Dataset.audio_preproc\<close>: the cut to the real duration\<close>

text \<open>
  \<^verbatim>\<open>cutoff = int(sample_rate * self.real_durations[f"task{task_idx}"][f])
  if waveform.shape[1] > cutoff: waveform = waveform[:, :cutoff]
  else: print(yellow("No audio cutoff"))\<close>
  for file number \<open>f\<close> of the task; the result is the waveform and what has been printed.
  The sample rate is an int, the durations are the floats that
  \<open>trim_nosound_regions\<close> returns, and the product is a rounded float.
\<close>

definition audio_cut ::
  "(string \<times> float64 list) list \<Rightarrow> nat \<Rightarrow> nat \<Rightarrow> int \<Rightarrow> 'a tensor2 \<Rightarrow> printed list \<Rightarrow>
   py_error + ('a tensor2 \<times> printed list)" where
  "audio_cut durations task_idx f sample_rate waveform printed_so_far =
     (case map_of durations (''task'' @ str_nat task_idx) of
        None \<Rightarrow> Inl KeyError
      | Some ds \<Rightarrow>
          if length ds \<le> f then Inl IndexError
          else
            (case py_int_of_float (fmul (float_of_int sample_rate) (ds ! f)) of
               Inl e \<Rightarrow> Inl e
             | Inr cutoff \<Rightarrow>
                 if int (snd (shape2 waveform)) > cutoff
                 then Inr (slice2_stop cutoff waveform, printed_so_far)
                 else Inr (waveform, printed_so_far @ [Msg ''No audio cutoff''])))"

section \<open>\<open>ToyDataset\<close>\<close>

text \<open>
  The random draws are parameters: \<open>rands\<close> is \<open>torch.rand(num_samples)\<close>, \<open>factors\<close>
  holds the \<open>Y_dim\<close> draws of \<open>torch.rand(1)\<close> and \<open>subject_idxs\<close> is the draw of
  \<open>torch.randint\<close>. \<open>torch.stack\<close> refuses an empty list.
\<close>

definition linspace :: "real \<Rightarrow> real \<Rightarrow> nat \<Rightarrow> real list" where
  "linspace a b steps =
     (if steps = 1 then [a]
      else map (\<lambda>k. a + of_nat k * ((b - a) / of_nat (steps - 1))) [0..<steps])"

definition toy_dataset ::
  "real list \<Rightarrow> real list \<Rightarrow> nat \<Rightarrow> int \<Rightarrow> int list \<Rightarrow>
   py_error + (real list list list \<times> real list list list \<times> int list)" where
  "toy_dataset rands factors seq_len X_dim subject_idxs =
     (if rands = [] then Inl RuntimeError
      else
        (let linspaces = map (\<lambda>r. linspace (r * 10) (r * 10 + 10) seq_len) rands
         in if factors = [] then Inl RuntimeError
            else
              (let Y0 = map (\<lambda>f. map (map (\<lambda>v. v * f)) linspaces) factors;
                   X0 = py_slice_stop X_dim Y0;
                   Y = map (map (map cos)) (permute102 (length rands) Y0);
                   X = map (map (map cos)) (permute102 (length rands) X0)
               in Inr (X, Y, subject_idxs))))"


section \<open>Properties\<close>

subsection \<open>Slices and windows\<close>

lemma clip_index_le: "clip_index i n \<le> n"
  by (auto simp: clip_index_def)

lemma length_windows: "length (windows W xs) = length xs div W"
  by (simp add: windows_def)

lemma length_permute102: "length (permute102 n rows) = n"
  by (simp add: permute102_def)

lemma py_int_nonneg: "0 \<le> q \<Longrightarrow> 0 \<le> py_int q"
  by (simp add: py_int_def)

lemma py_slice_stop_nonneg: "0 \<le> b \<Longrightarrow> py_slice_stop b xs = take (nat b) xs"
  by (auto simp: py_slice_stop_def clip_index_def min_def)

subsection \<open>Rounding to a double\<close>

lemma bit_length_0: "bit_length 0 = 0"
  by (simp add: bit_length.simps)

lemma bit_length_Suc_0: "bit_length (Suc 0) = Suc 0"
  by (subst bit_length.simps) (simp add: bit_length_0)

lemma bit_length_bounds:
  "0 < n \<Longrightarrow> 2 ^ (bit_length n - 1) \<le> n \<and> n < 2 ^ bit_length n"
proof (induction n rule: bit_length.induct)
  case (1 n)
  show ?case
  proof (cases "n div 2 = 0")
    case True
    with 1 have "n = 1" by (cases n) auto
    then show ?thesis by (simp add: bit_length_Suc_0)
  next
    case False
    with 1 have ih: "2 ^ (bit_length (n div 2) - 1) \<le> n div 2" "n div 2 < 2 ^ bit_length (n div 2)"
      by auto
    have pos: "0 < bit_length (n div 2)"
      using False by (subst bit_length.simps) simp
    have b: "bit_length n = Suc (bit_length (n div 2))"
      using 1 by (subst bit_length.simps) simp
    have "2 * 2 ^ (bit_length (n div 2) - 1) \<le> n" using ih(1) by linarith
    moreover have "2 * 2 ^ (bit_length (n div 2) - 1) = (2::nat) ^ bit_length (n div 2)"
      using pos by (cases "bit_length (n div 2)") simp_all
    moreover have "n < 2 * 2 ^ bit_length (n div 2)" using ih(2) by linarith
    ultimately show ?thesis by (simp add: b)
  qed
qed

lemma bit_length_eq:
  assumes "2 ^ k \<le> n" "n < 2 ^ Suc k"
  shows "bit_length n = Suc k"
proof -
  from assms(1) have pos: "0 < n" by (metis not_gr_zero not_le zero_less_numeral zero_less_power)
  note b = bit_length_bounds [OF pos]
  have "(2::nat) ^ (bit_length n - 1) < 2 ^ Suc k" using b assms(2) by linarith
  then have 1: "bit_length n - 1 < Suc k"
    by (rule power_less_imp_less_exp [rotated]) simp
  have "(2::nat) ^ k < 2 ^ bit_length n" using b assms(1) by linarith
  then have 2: "k < bit_length n"
    by (rule power_less_imp_less_exp [rotated]) simp
  from 1 2 show ?thesis by linarith
qed

lemma two_powi_pos: "0 < two_powi k"
  by (simp add: two_powi_def)

lemma two_powi_add: "two_powi (a + b) = two_powi a * two_powi b"
proof -
  have "two_powi k = 2 powi k" for k
    by (simp add: two_powi_def power_int_def field_simps)
  then show ?thesis by (simp add: power_int_add)
qed

lemma two_powi_Suc: "two_powi (k + 1) = 2 * two_powi k"
  by (simp add: two_powi_add) (simp add: two_powi_def)

lemma two_powi_nat: "0 \<le> k \<Longrightarrow> two_powi k = 2 ^ nat k"
  by (simp add: two_powi_def)

lemma two_powi_neg: "k < 0 \<Longrightarrow> two_powi k = 1 / 2 ^ nat (- k)"
  by (simp add: two_powi_def)

lemma floor_log2_eq:
  assumes "two_powi k \<le> x" "x < two_powi (k + 1)"
  shows "floor_log2 x = k"
proof (cases "0 \<le> k")
  case True
  then have lo: "(2::rat) ^ nat k \<le> x" and hi: "x < 2 ^ Suc (nat k)"
    using assms by (simp_all add: two_powi_nat nat_add_distrib)
  have one: "1 \<le> x" using lo by (meson one_le_numeral one_le_power order_trans)
  have f1: "(2::int) ^ nat k \<le> \<lfloor>x\<rfloor>" using lo by (simp add: le_floor_iff)
  have f2: "\<lfloor>x\<rfloor> < 2 ^ Suc (nat k)" using hi by (simp add: floor_less_iff)
  from f1 have "0 \<le> \<lfloor>x\<rfloor>" by (meson order_trans zero_le_numeral zero_le_power)
  then obtain n where n: "\<lfloor>x\<rfloor> = int n" by (metis nat_0_le)
  from f1 f2 have "int (2 ^ nat k) \<le> int n" "int n < int (2 ^ Suc (nat k))"
    by (simp_all add: n)
  then have "2 ^ nat k \<le> nat \<lfloor>x\<rfloor>" "nat \<lfloor>x\<rfloor> < 2 ^ Suc (nat k)"
    unfolding n nat_int by (simp_all only: of_nat_le_iff of_nat_less_iff)
  then have "bit_length (nat \<lfloor>x\<rfloor>) = Suc (nat k)" by (rule bit_length_eq)
  with one True show ?thesis by (simp add: floor_log2_def)
next
  case False
  define j where "j = nat (- k - 1)"
  have k: "k = - int j - 1" using False by (simp add: j_def)
  have xpos: "0 < x" using assms(1) two_powi_pos [of k] by linarith
  have lo: "1 / 2 ^ Suc j \<le> x" using assms(1) by (simp add: k two_powi_def nat_add_distrib)
  have hi: "x < 1 / 2 ^ j"
  proof -
    have e: "k + 1 = - int j" using k by simp
    have "two_powi (- int j) = 1 / 2 ^ j"
    proof (cases j)
      case 0
      then show ?thesis by (simp add: two_powi_def)
    next
      case (Suc i)
      have "nat (int i + 1) = Suc i" by arith
      then show ?thesis unfolding Suc two_powi_def by simp
    qed
    with assms(2) show ?thesis unfolding e by simp
  qed
  have lt1: "x < 1"
  proof -
    have "(1::rat) / 2 ^ j \<le> 1" by simp
    with hi show ?thesis by linarith
  qed
  have a: "1 / x \<le> 2 ^ Suc j" using lo xpos by (simp add: field_simps)
  have b: "2 ^ j < 1 / x" using hi xpos by (simp add: field_simps)
  have c1: "\<lceil>1 / x\<rceil> \<le> 2 ^ Suc j" using a by (simp add: ceiling_le_iff)
  have c2: "2 ^ j < \<lceil>1 / x\<rceil>" using b by (simp add: less_ceiling_iff)
  from c2 have "0 \<le> \<lceil>1 / x\<rceil> - 1"
    by (smt (verit) zero_le_numeral zero_le_power)
  then obtain n where n: "\<lceil>1 / x\<rceil> - 1 = int n" by (metis nat_0_le)
  have n': "\<lceil>1 / x\<rceil> = int n + 1" using n by linarith
  from c1 c2 have "(2::int) ^ j \<le> int n" "int n < 2 ^ Suc j"
    unfolding n' by linarith+
  then have "int (2 ^ j) \<le> int n" "int n < int (2 ^ Suc j)"
    by simp_all
  then have "2 ^ j \<le> nat (\<lceil>1 / x\<rceil> - 1)" "nat (\<lceil>1 / x\<rceil> - 1) < 2 ^ Suc j"
    unfolding n nat_int by (simp_all only: of_nat_le_iff of_nat_less_iff)
  then have "bit_length (nat (\<lceil>1 / x\<rceil> - 1)) = Suc j" by (rule bit_length_eq)
  with lt1 k show ?thesis by (simp add: floor_log2_def)
qed

lemma round_half_even_eq:
  assumes "\<bar>y - of_int m\<bar> < 1 / 2"
  shows "round_half_even y = m"
proof (cases "of_int m \<le> y")
  case True
  with assms have "\<lfloor>y\<rfloor> = m" by (intro floor_unique) linarith+
  with assms True show ?thesis by (simp add: round_half_even_def Let_def)
next
  case False
  have o: "(of_int (m - 1) :: rat) = of_int m - 1" by simp
  have "of_int (m - 1) \<le> y" "y < of_int (m - 1) + 1"
    unfolding o using assms False by linarith+
  then have f: "\<lfloor>y\<rfloor> = m - 1" by (rule floor_unique)
  have "1 / 2 < y - of_int (m - 1)" unfolding o using assms False by linarith
  with f show ?thesis by (simp add: round_half_even_def Let_def)
qed

text \<open>
  A rounding checked from outside: a binade \<open>e\<close> and an integer \<open>m\<close> nearer to
  \<open>|x| / 2 ^ (e - 52)\<close> than one half give the value of \<open>round64 x\<close>.
\<close>

lemma round64_eq:
  assumes "x \<noteq> 0" "- 1022 \<le> e" "two_powi e \<le> \<bar>x\<bar>" "\<bar>x\<bar> < two_powi (e + 1)"
    "\<bar>\<bar>x\<bar> / two_powi (e - 52) - of_int m\<bar> < 1 / 2"
    "of_int m * two_powi (e - 52) < 2 ^ 1024"
  shows "round64 x = Finite (if x < 0 then - (of_int m * two_powi (e - 52)) else of_int m * two_powi (e - 52))"
proof -
  have fl: "floor_log2 \<bar>x\<bar> = e" using assms(3,4) by (rule floor_log2_eq)
  have q: "max (e - 52) (- 1074) = e - 52" using assms(2) by simp
  have r: "round_half_even (\<bar>x\<bar> / two_powi (e - 52)) = m" using assms(5) by (rule round_half_even_eq)
  have "round64 x =
      (if 2 ^ 1024 \<le> of_int m * two_powi (e - 52) then (if x < 0 then NegInf else PosInf)
       else Finite (if x < 0 then - (of_int m * two_powi (e - 52))
                    else of_int m * two_powi (e - 52)))"
    by (simp only: round64_def Let_def fl q r assms(1) if_False)
  with assms(6) show ?thesis by simp
qed

lemma round_half_even_tie: "round_half_even (of_int f + 1 / 2) = (if even f then f else f + 1)"
proof -
  have "\<lfloor>(of_int f :: rat) + 1 / 2\<rfloor> = f" by (rule floor_unique) simp_all
  then show ?thesis by (simp add: round_half_even_def Let_def)
qed

lemma round64_eq_tie:
  assumes "x \<noteq> 0" "- 1022 \<le> e" "two_powi e \<le> \<bar>x\<bar>" "\<bar>x\<bar> < two_powi (e + 1)"
    "\<bar>x\<bar> / two_powi (e - 52) = of_int f + 1 / 2"
    "of_int (if even f then f else f + 1) * two_powi (e - 52) < 2 ^ 1024"
  shows "round64 x =
    Finite (if x < 0 then - (of_int (if even f then f else f + 1) * two_powi (e - 52))
            else of_int (if even f then f else f + 1) * two_powi (e - 52))"
proof -
  have fl: "floor_log2 \<bar>x\<bar> = e" using assms(3,4) by (rule floor_log2_eq)
  have q: "max (e - 52) (- 1074) = e - 52" using assms(2) by simp
  have r: "round_half_even (\<bar>x\<bar> / two_powi (e - 52)) = (if even f then f else f + 1)"
    unfolding assms(5) by (rule round_half_even_tie)
  have "round64 x =
      (if 2 ^ 1024 \<le> of_int (if even f then f else f + 1) * two_powi (e - 52)
       then (if x < 0 then NegInf else PosInf)
       else Finite (if x < 0 then - (of_int (if even f then f else f + 1) * two_powi (e - 52))
                    else of_int (if even f then f else f + 1) * two_powi (e - 52)))"
    by (simp only: round64_def Let_def fl q r assms(1) if_False)
  with assms(6) show ?thesis by simp
qed

lemma round64_zero: "round64 0 = Finite 0"
  by (simp add: round64_def)

subsection \<open>The doubles of the examples\<close>

text \<open>
  Each rounding below is checked through \<open>round64_eq\<close> or \<open>round64_eq_tie\<close>, from the binary
  exponent and the mantissa of the result.
\<close>

lemma r64_1: "round64 (1 / 1000000) = Finite (4722366482869645 / 4722366482869645213696)"
  using round64_eq [of "1 / 1000000" "- 20" 4722366482869645]
  by (simp add: two_powi_def)

lemma r64_2: "round64 (1000) = Finite (1000)"
  using round64_eq [of "1000" "9" 8796093022208000]
  by (simp add: two_powi_def)

lemma py_int_1: "py_int (0) = 0"
  by (simp add: py_int_def floor_eq_iff ceiling_eq_iff)

lemma r64_3: "round64 (1152921504606847 / 1152921504606846976) = Finite (1152921504606847 / 1152921504606846976)"
  using round64_eq [of "1152921504606847 / 1152921504606846976" "- 10" 4611686018427388]
  by (simp add: two_powi_def)

lemma r64_4: "round64 (144115188075855875 / 144115188075855872) = Finite (1)"
  using round64_eq [of "144115188075855875 / 144115188075855872" "0" 4503599627370496]
  by (simp add: two_powi_def)

lemma py_int_2: "py_int (1) = 1"
  by (simp add: py_int_def floor_eq_iff ceiling_eq_iff)

lemma r64_5: "round64 (590295810358705625 / 590295810358705651712) = Finite (1152921504606847 / 1152921504606846976)"
  using round64_eq [of "590295810358705625 / 590295810358705651712" "- 10" 4611686018427388]
  by (simp add: two_powi_def)

lemma r64_6: "round64 (1152921504606847 / 576460752303423488) = Finite (1152921504606847 / 576460752303423488)"
  using round64_eq [of "1152921504606847 / 576460752303423488" "- 9" 4611686018427388]
  by (simp add: two_powi_def)

lemma r64_7: "round64 (144115188075855875 / 72057594037927936) = Finite (2)"
  using round64_eq [of "144115188075855875 / 72057594037927936" "1" 4503599627370496]
  by (simp add: two_powi_def)

lemma py_int_3: "py_int (2) = 2"
  by (simp add: py_int_def floor_eq_iff ceiling_eq_iff)

lemma r64_8: "round64 (7000) = Finite (7000)"
  using round64_eq [of "7000" "12" 7696581394432000]
  by (simp add: two_powi_def)

lemma r64_9: "round64 (4132070672510939375 / 590295810358705651712) = Finite (1008806316530991 / 144115188075855872)"
  using round64_eq [of "4132070672510939375 / 590295810358705651712" "- 8" 8070450532247928]
  by (simp add: two_powi_def)

lemma r64_10: "round64 (1008806316530991 / 144115188075855872) = Finite (1008806316530991 / 144115188075855872)"
  using round64_eq [of "1008806316530991 / 144115188075855872" "- 8" 8070450532247928]
  by (simp add: two_powi_def)

lemma r64_11: "round64 (126100789566373875 / 18014398509481984) = Finite (7881299347898367 / 1125899906842624)"
  using round64_eq [of "126100789566373875 / 18014398509481984" "2" 7881299347898367]
  by (simp add: two_powi_def)

lemma py_int_4: "py_int (7881299347898367 / 1125899906842624) = 6"
  by (simp add: py_int_def floor_eq_iff ceiling_eq_iff)

lemma r64_12: "round64 (9223372036854775 / 1152921504606846976) = Finite (1152921504606847 / 144115188075855872)"
  using round64_eq_tie [of "9223372036854775 / 1152921504606846976" "- 7" 4611686018427387]
  by (simp add: two_powi_def)

lemma r64_13: "round64 (144115188075855875 / 18014398509481984) = Finite (8)"
  using round64_eq [of "144115188075855875 / 18014398509481984" "3" 4503599627370496]
  by (simp add: two_powi_def)

lemma py_int_5: "py_int (8) = 8"
  by (simp add: py_int_def floor_eq_iff ceiling_eq_iff)

lemma r64_14: "round64 (9007199254741 / 9007199254740992) = Finite (9007199254741 / 9007199254740992)"
  using round64_eq [of "9007199254741 / 9007199254740992" "- 10" 4611686018427392]
  by (simp add: two_powi_def)

lemma r64_15: "round64 (16000) = Finite (16000)"
  using round64_eq [of "16000" "13" 8796093022208000]
  by (simp add: two_powi_def)

lemma r64_16: "round64 (648518346341351375 / 4503599627370496) = Finite (144)"
  using round64_eq [of "648518346341351375 / 4503599627370496" "7" 5066549580791808]
  by (simp add: two_powi_def)

lemma py_int_6: "py_int (144) = 144"
  by (simp add: py_int_def floor_eq_iff ceiling_eq_iff)

lemma r64_17: "round64 (2) = Finite (2)"
  using round64_eq [of "2" "1" 4503599627370496]
  by (simp add: two_powi_def)

lemma r64_18: "round64 (- 2) = Finite (- 2)"
  using round64_eq [of "- 2" "1" 4503599627370496]
  by (simp add: two_powi_def)

lemma py_int_7: "py_int (- 2) = - 2"
  by (simp add: py_int_def floor_eq_iff ceiling_eq_iff)

lemma r64_19: "round64 (29 / 100) = Finite (5224175567749775 / 18014398509481984)"
  using round64_eq [of "29 / 100" "- 2" 5224175567749775]
  by (simp add: two_powi_def)

lemma r64_20: "round64 (130604389193744375 / 4503599627370496) = Finite (8162774324609023 / 281474976710656)"
  using round64_eq [of "130604389193744375 / 4503599627370496" "4" 8162774324609023]
  by (simp add: two_powi_def)

lemma py_int_8: "py_int (8162774324609023 / 281474976710656) = 28"
  by (simp add: py_int_def floor_eq_iff ceiling_eq_iff)

lemmas r64_values = round64_zero r64_1 r64_2 r64_3 r64_4 r64_5 r64_6 r64_7 r64_8 r64_9 r64_10 r64_11 r64_12 r64_13 r64_14 r64_15 r64_16 r64_17 r64_18 r64_19 r64_20

lemmas py_int_values = py_int_1 py_int_2 py_int_3 py_int_4 py_int_5 py_int_6 py_int_7 py_int_8


subsection \<open>The alignment shift\<close>

text \<open>
  Claim C4: for brain and audio tensors of equal time length \<open>L\<close> and a computed shift
  \<open>S = int(srate * shift / 1000)\<close> with \<open>0 \<le> S < L\<close>, \<open>shift_brain_signal\<close> returns
  tensors that both have time length \<open>L - S\<close>. At \<open>S = 0\<close> the code does not do that:
  with a sample rate of 135 and a shift of 0 ms the brain tensor keeps its three
  samples and the audio tensor, sliced by \<open>Y[:, :-0]\<close>, keeps none.
\<close>

theorem shift_brain_signal_zero_shift:
  "shift_brain_signal
     \<lparr>shape3 = (1, 1, 3), data3 = [[[1, 2, 3 :: int]]]\<rparr>
     \<lparr>shape2 = (1, 3), data2 = [[10, 20, 30 :: int]]\<rparr> (Finite 135) 0
   = Inr (\<lparr>shape3 = (1, 1, 3), data3 = [[[1, 2, 3]]]\<rparr>, \<lparr>shape2 = (1, 0), data2 = [[]]\<rparr>)"
  by (simp add: shift_brain_signal_def shift_samples_def round64_zero py_int_def slice3_start_def
      slice2_stop_def py_slice_start_def py_slice_stop_def clip_index_def)


subsection \<open>Windowing\<close>

text \<open>
  Claim C1: for a time length \<open>L\<close> and a window length \<open>W\<close> with \<open>1 \<le> W \<le> L\<close>,
  windowing gives \<open>L div W\<close> windows, in both datasets, also when \<open>L\<close> is a multiple of
  \<open>W\<close>. In \<open>Gwilliams2022Dataset.batchfy\<close> a time length of 4 with windows of 2 gives
  no window at all, for the brain array and for the audio tensor, where \<open>4 div 2\<close> is 2:
  the remainder is 0 and \<open>X[:, :-0]\<close> is empty.
\<close>

theorem gw_windows_exact_multiple:
  "gw_brain_windows 2 \<lparr>shape2 = (1, 4), data2 = [[1, 2, 3, 4 :: int]]\<rparr> = Inr (0, [])
   \<and> gw_audio_windows 2 \<lparr>shape2 = (1, 4), data2 = [[1, 2, 3, 4 :: int]]\<rparr> = Inr []
   \<and> (4 :: nat) div 2 = 2"
  by (simp add: gw_brain_windows_def gw_audio_windows_def slice2_stop_def clip_index_def
      infer_dim_def permute102_def windows_def py_slice_stop_def)

text \<open>
  Claim C2: on an input whose time length is already a multiple of the window length,
  windowing only rearranges the axes, and laying the windows end to end gives the
  input back, in both datasets. \<open>Gwilliams2022Dataset.batchfy\<close> on such an input (four
  samples, windows of two) returns no brain window, no audio window and no subject
  index: every sample is lost.
\<close>

theorem gw_batchfy_trimmed_input_lost:
  "gw_batchfy 2 2
     [(''subject01_sess0_task0'',
       \<lparr>shape2 = (2, 4), data2 = [[1, 2, 3, 4 :: int], [5, 6, 7, 8]]\<rparr>)]
     [(''task0'', \<lparr>shape2 = (1, 4), data2 = [[10, 20, 30, 40 :: int]]\<rparr>)]
   = Inr ([], [], [])"
  by code_simp


subsection \<open>Windowing in \<open>Brennan2018Dataset\<close>\<close>

lemma trimmed_length: "0 < W \<Longrightarrow> int L - int L mod int W = int (W * (L div W))"
  by (metis minus_mod_eq_mult_div of_nat_div of_nat_mult)

lemma clip_index_nat: "clip_index (int k) n = min k n"
  by (simp add: clip_index_def)



lemma batchfy_result:
  assumes sh: "shape3 X = (S, C, L)" "shape2 Y = (E, L)"
    and pos: "0 < S" "0 < C" "0 < E" "0 < W"
  shows "batchfy X Y (int W) =
     Inr (concat (map (\<lambda>m. permute102 (L div W) (map (\<lambda>r. windows W (py_slice_stop (int W * int (L div W)) r)) m)) (data3 X)),
          concat (replicate S (permute102 (L div W)
             (map (\<lambda>r. windows W (py_slice_stop (int W * int (L div W)) r)) (data2 Y)))),
          concat (map (replicate (L div W)) [0..<S]))"
proof -
  have le: "W * (L div W) \<le> L" by simp
  have t: "int L - int L mod int W = int (W * (L div W))"
    using pos by (simp add: trimmed_length)
  have d1: "infer_dim (S * C * (W * (L div W))) (S * C * W) = Some (L div W)"
    using pos by (simp add: infer_dim_def)
  have d2: "infer_dim (E * (W * (L div W))) (E * W) = Some (L div W)"
    using pos by (simp add: infer_dim_def)
  show ?thesis
    using sh pos le d1 d2
    by (simp add: batchfy_def Let_def t slice3_stop_def slice2_stop_def clip_index_nat
        min_absorb1 o_def flip: of_nat_mult)
qed

subsection \<open>Windowing in \<open>Gwilliams2022Dataset\<close>, and the keys of its recordings\<close>

lemma py_index_mem: "py_index xs i = Inr v \<Longrightarrow> v \<in> set xs"
  by (auto simp: py_index_def split: if_splits)

lemma getitem_mem: "getitem ds i = Inr (x, y, s) \<Longrightarrow> s \<in> set (snd (snd ds))"
  by (auto simp: getitem_def split: sum.splits dest: py_index_mem)

lemma batchfy_subject_idxs:
  "batchfy X Y seq_len = Inr (Xo, Yo, idxs) \<Longrightarrow> set idxs \<subseteq> {0..<fst (shape3 X)}"
  by (auto simp: batchfy_def Let_def split: if_splits option.splits)



lemma gw_recording_subj:
  assumes "gw_recording meg_len audio_len Ydict kx = Inr b" "w \<in> set (subj b)"
  shows "\<exists>v. subj_idx_of_key (fst kx) = Inr v \<and> w = word_of_int v"
  using assms
  by (auto simp: gw_recording_def Let_def split: sum.splits option.splits if_splits)


lemma gw_loop_subj:
  "gw_loop meg_len audio_len Ydict Xdict = Inr bs \<Longrightarrow> w \<in> set (concat (map subj bs)) \<Longrightarrow>
   \<exists>k v. k \<in> fst ` set Xdict \<and> subj_idx_of_key k = Inr v \<and> w = word_of_int v"
proof (induction Xdict arbitrary: bs)
  case Nil
  then show ?case by simp
next
  case (Cons kx rest)
  from Cons.prems(1) obtain b bs' where b: "gw_recording meg_len audio_len Ydict kx = Inr b"
    and bs': "gw_loop meg_len audio_len Ydict rest = Inr bs'" and bs: "bs = b # bs'"
    by (auto split: sum.splits)
  from Cons.prems(2) bs consider "w \<in> set (subj b)" | "w \<in> set (concat (map subj bs'))"
    by auto
  then show ?case
  proof cases
    case 1
    from gw_recording_subj [OF b 1] show ?thesis by auto
  next
    case 2
    from Cons.IH [OF bs' 2] show ?thesis by auto
  qed
qed

lemma gw_batchfy_Inr:
  "gw_batchfy meg_len audio_len Xdict Ydict = Inr (Xg, Yg, ig) \<Longrightarrow>
   \<exists>bs. gw_loop meg_len audio_len Ydict Xdict = Inr bs \<and> Xg = concat (map brain bs)
      \<and> Yg = concat (map audio bs) \<and> ig = concat (map subj bs)"
  by (auto simp: gw_batchfy_def split: sum.splits list.splits if_splits)

lemma preproc_loop_keys:
  "preproc_loop process rs = Inr X \<Longrightarrow> k \<in> fst ` set X \<Longrightarrow>
   \<exists>r \<in> set rs. k = description (fst r) (fst (snd r)) (snd (snd r))"
proof (induction rs arbitrary: X)
  case Nil
  then show ?case by simp
next
  case (Cons r rest)
  show ?case
  proof (cases "process (fst r) (fst (snd r)) (snd (snd r))")
    case None
    with Cons.prems have "preproc_loop process rest = Inr X" by simp
    from Cons.IH [OF this Cons.prems(2)] show ?thesis by auto
  next
    case (Some res)
    with Cons.prems(1) obtain M X' where res: "res = Inr M"
      and X': "preproc_loop process rest = Inr X'"
      and X: "X = (description (fst r) (fst (snd r)) (snd (snd r)), M) # X'"
      by (auto split: sum.splits)
    from Cons.prems(2) X consider "k = description (fst r) (fst (snd r)) (snd (snd r))"
      | "k \<in> fst ` set X'" by auto
    then show ?thesis
    proof cases
      case 1
      then show ?thesis by simp
    next
      case 2
      from Cons.IH [OF X' 2] show ?thesis by auto
    qed
  qed
qed

lemma recordings_subject: "r \<in> set (recordings n) \<Longrightarrow> fst r < n"
  by (auto simp: recordings_def)

lemma brain_preproc_keys:
  assumes "brain_preproc n process = Inr X" "k \<in> fst ` set X"
  shows "\<exists>s e t. s < n \<and> k = description s e t"
proof -
  from assms(1) have "preproc_loop process (recordings n) = Inr X"
    by (auto simp: brain_preproc_def split: sum.splits list.splits)
  from preproc_loop_keys [OF this assms(2)] obtain r where
    "r \<in> set (recordings n)" "k = description (fst r) (fst (snd r)) (snd (snd r))" by blast
  then show ?thesis using recordings_subject by blast
qed

lemma of_char_digit_char: "d < 10 \<Longrightarrow> of_char (digit_char d) = 48 + d"
  by (simp add: digit_char_def)

lemma digit_val_digit_char: "d < 10 \<Longrightarrow> digit_val (digit_char d) = Some d"
  by (simp add: digit_val_def of_char_digit_char)

lemma is_space_digit_char: "d < 10 \<Longrightarrow> \<not> is_space (digit_char d)"
  by (simp add: is_space_def of_char_digit_char)

lemma digit_char_neq:
  assumes "d < 10"
  shows "digit_char d \<noteq> CHR ''_''" "digit_char d \<noteq> CHR ''-''" "digit_char d \<noteq> CHR ''+''"
proof -
  have "(of_char (digit_char d) :: nat) \<noteq> of_char (CHR ''_'')"
    "(of_char (digit_char d) :: nat) \<noteq> of_char (CHR ''-'')"
    "(of_char (digit_char d) :: nat) \<noteq> of_char (CHR ''+'')"
    using assms by (simp_all add: of_char_digit_char)
  then show "digit_char d \<noteq> CHR ''_''" "digit_char d \<noteq> CHR ''-''" "digit_char d \<noteq> CHR ''+''"
    by auto
qed

lemma py_int_of_two_digits:
  assumes "a < 10" "b < 10"
  shows "py_int_of_str [digit_char a, digit_char b] = Inr (int (10 * a + b))"
  using assms
  by (simp add: py_int_of_str_def is_space_digit_char digit_val_digit_char digit_char_neq)

lemma char_zero: "CHR ''0'' = char_of (48 :: nat)"
proof -
  have "of_char (CHR ''0'') = (48 :: nat)" by simp
  then show ?thesis by (metis char_of_char)
qed

lemma zfill_str_nat:
  assumes "m < 100"
  shows "zfill 2 (str_nat m) = [digit_char (m div 10), digit_char (m mod 10)]"
proof (cases "m < 10")
  case True
  then show ?thesis by (simp add: str_nat.simps [of m] zfill_def digit_char_def char_zero)
next
  case False
  with assms have "m div 10 < 10" by simp
  then have "str_nat (m div 10) = [digit_char (m div 10)]"
    by (simp add: str_nat.simps [of "m div 10"])
  with False show ?thesis by (simp add: str_nat.simps [of m] zfill_def)
qed

lemma py_split_prefix:
  "c \<notin> set p \<Longrightarrow> py_split c (p @ c # rest) = p # py_split c rest"
  by (induction p) auto

lemma subj_idx_of_description:
  assumes "s < 99"
  shows "subj_idx_of_key (description s e t) = Inr (int s)"
proof -
  let ?a = "digit_char (Suc s div 10)" and ?b = "digit_char (Suc s mod 10)"
  have lt: "Suc s div 10 < 10" "Suc s mod 10 < 10" using assms by simp_all
  have z: "zfill 2 (str_nat (Suc s)) = [?a, ?b]"
    using assms by (simp add: zfill_str_nat)
  have notin: "CHR ''_'' \<notin> set (''subject'' @ [?a, ?b])"
    using digit_char_neq(1) [OF lt(1)] digit_char_neq(1) [OF lt(2)] by auto
  have d: "description s e t
    = (''subject'' @ [?a, ?b]) @ CHR ''_'' # (''sess'' @ str_nat e @ ''_task'' @ str_nat t)"
    by (simp add: description_def z)
  have sp: "py_split (CHR ''_'') (description s e t)
    = (''subject'' @ [?a, ?b]) # py_split (CHR ''_'') (''sess'' @ str_nat e @ ''_task'' @ str_nat t)"
    unfolding d by (rule py_split_prefix [OF notin])
  have sl: "py_slice_start (- 2) (''subject'' @ [?a, ?b]) = [?a, ?b]"
    by (simp add: py_slice_start_def clip_index_def)
  have "int (10 * (Suc s div 10) + Suc s mod 10) - 1 = int s" by simp
  then show ?thesis
    unfolding subj_idx_of_key_def sp
    by (simp only: list.case sl py_int_of_two_digits [OF lt] sum.case)
qed

subsection \<open>Flat lengths\<close>





subsection \<open>Subject indices\<close>

lemma unat_subject_word: "s < 256 \<Longrightarrow> unat (word_of_nat s :: 8 word) = s"
  by (simp add: unat_of_nat)

text \<open>
  Claim C9, amended: every subject index that a dataset returns lies in
  \<open>[0, num_subjects)\<close>. For Brennan2018 the number of subjects is the leading axis of
  the brain tensor. For Gwilliams2022 the index is read from the last two characters
  of the first part of the key, so the statement is for at most 99 subjects and for
  the keys that \<open>brain_preproc\<close> stores for that number of subjects.
\<close>

theorem subject_index_range:
  "(batchfy X Y seq_len = Inr ds \<and> getitem ds i = Inr (x, y, s) \<longrightarrow> s < fst (shape3 X))
   \<and> (num_subjects \<le> 99 \<and> brain_preproc num_subjects process = Inr Xdict
        \<and> gw_batchfy meg_len audio_len Xdict Ydict = Inr dg
        \<and> getitem dg k = Inr (xg, yg, sg) \<longrightarrow> unat sg < num_subjects)"
proof (intro conjI impI)
  assume a: "batchfy X Y seq_len = Inr ds \<and> getitem ds i = Inr (x, y, s)"
  obtain Xo Yo idxs where ds: "ds = (Xo, Yo, idxs)" by (cases ds) auto
  from a ds have "s \<in> set idxs" using getitem_mem [of ds i x y s] by simp
  moreover from a ds have "set idxs \<subseteq> {0..<fst (shape3 X)}"
    using batchfy_subject_idxs [of X Y seq_len Xo Yo idxs] by simp
  ultimately show "s < fst (shape3 X)" by auto
next
  assume a: "num_subjects \<le> 99 \<and> brain_preproc num_subjects process = Inr Xdict
        \<and> gw_batchfy meg_len audio_len Xdict Ydict = Inr dg
        \<and> getitem dg k = Inr (xg, yg, sg)"
  obtain Xg Yg ig where dg: "dg = (Xg, Yg, ig)" by (cases dg) auto
  from a dg have mem: "sg \<in> set ig" using getitem_mem [of dg k xg yg sg] by simp
  from a dg obtain bs where bs: "gw_loop meg_len audio_len Ydict Xdict = Inr bs"
    "ig = concat (map subj bs)"
    using gw_batchfy_Inr [of meg_len audio_len Xdict Ydict Xg Yg ig] by auto
  from gw_loop_subj [OF bs(1)] mem bs(2) obtain key v where
    kv: "key \<in> fst ` set Xdict" "subj_idx_of_key key = Inr v" "sg = word_of_int v" by blast
  from a kv(1) obtain sj e t where sj: "sj < num_subjects" "key = description sj e t"
    using brain_preproc_keys [of num_subjects process Xdict key] by blast
  from a sj(1) have "sj < 99" by simp
  from subj_idx_of_description [OF this, of e t] kv(2) sj(2) have "v = int sj" by simp
  with kv(3) \<open>sj < 99\<close> have "unat sg = sj" by (simp add: unat_subject_word)
  with sj(1) show "unat sg < num_subjects" by simp
qed

theorem subject_index_range_witness:
  "batchfy \<lparr>shape3 = (2, 1, 5), data3 = [[[1, 2, 3, 4, 5 :: int]], [[6, 7, 8, 9, 10]]]\<rparr>
           \<lparr>shape2 = (1, 5), data2 = [[10, 20, 30, 40, 50 :: int]]\<rparr> 2
     = Inr ([[[1, 2]], [[3, 4]], [[6, 7]], [[8, 9]]],
            [[[10, 20]], [[30, 40]], [[10, 20]], [[30, 40]]], [0, 0, 1, 1])
   \<and> getitem ([[[1, 2]], [[3, 4]], [[6, 7]], [[8, 9 :: int]]],
            [[[10, 20]], [[30, 40]], [[10, 20]], [[30, 40 :: int]]], [0, 0, 1, 1 :: nat]) 3
     = Inr ([[8, 9]], [[30, 40]], 1)
   \<and> (1 :: nat) < 2
   \<and> brain_preproc 2
        (\<lambda>s e t. if s = 1 \<and> e = 0 \<and> t = 0
           then Some (Inr \<lparr>shape2 = (1, 3), data2 = [[1, 2, 3 :: int]]\<rparr>) else None)
     = Inr [(''subject02_sess0_task0'', \<lparr>shape2 = (1, 3), data2 = [[1, 2, 3]]\<rparr>)]
   \<and> gw_batchfy 2 2 [(''subject02_sess0_task0'', \<lparr>shape2 = (1, 3), data2 = [[1, 2, 3 :: int]]\<rparr>)]
        [(''task0'', \<lparr>shape2 = (1, 3), data2 = [[10, 20, 30 :: int]]\<rparr>)]
     = Inr ([[[1, 2]]], [[10, 20]], [1])
   \<and> getitem ([[[1, 2 :: int]]], [[10, 20 :: int]], [1 :: 8 word]) 0 = Inr ([[1, 2]], [10, 20], 1)
   \<and> unat (1 :: 8 word) < 2"
proof -
  let ?X = "\<lparr>shape3 = (2, 1, 5), data3 = [[[1, 2, 3, 4, 5 :: int]], [[6, 7, 8, 9, 10]]]\<rparr>"
  let ?Y = "\<lparr>shape2 = (1, 5), data2 = [[10, 20, 30, 40, 50 :: int]]\<rparr>"
  let ?ds = "([[[1, 2]], [[3, 4]], [[6, 7]], [[8, 9 :: int]]],
            [[[10, 20]], [[30, 40]], [[10, 20]], [[30, 40 :: int]]], [0, 0, 1, 1 :: nat])"
  let ?P = "\<lambda>s e t. if s = (1 :: nat) \<and> e = (0 :: nat) \<and> t = (0 :: nat)
           then Some (Inr \<lparr>shape2 = (1, 3), data2 = [[1, 2, 3 :: int]]\<rparr> :: py_error + int tensor2) else None"
  let ?Xd = "[(''subject02_sess0_task0'', \<lparr>shape2 = (1, 3), data2 = [[1, 2, 3 :: int]]\<rparr>)]"
  let ?Yd = "[(''task0'', \<lparr>shape2 = (1, 3), data2 = [[10, 20, 30 :: int]]\<rparr>)]"
  let ?dg = "([[[1, 2 :: int]]], [[10, 20 :: int]], [1 :: 8 word])"
  have b1: "batchfy ?X ?Y 2 = Inr ?ds" by code_simp
  have b2: "getitem ?ds 3 = Inr ([[8, 9]], [[30, 40]], 1)" by code_simp
  have g1: "brain_preproc 2 ?P = Inr ?Xd" by code_simp
  have g2: "gw_batchfy 2 2 ?Xd ?Yd = Inr ?dg" by code_simp
  have g3: "getitem ?dg 0 = Inr ([[1, 2]], [10, 20], 1)" by code_simp
  from subject_index_range [where X = ?X and Y = ?Y and seq_len = 2 and ds = ?ds and i = 3
      and x = "[[8, 9]]" and y = "[[30, 40]]" and s = 1 and num_subjects = 2 and process = ?P
      and Xdict = ?Xd and meg_len = 2 and audio_len = 2 and Ydict = ?Yd and dg = ?dg
      and k = 0 and xg = "[[1, 2]]" and yg = "[10, 20]" and sg = 1] b1 b2 g1 g2 g3
  show ?thesis by simp
qed

text \<open>
  With 100 subjects the claim of C9 fails: the recording of the last subject (number
  100, \<open>subject_idx = 99\<close>) has the key \<open>subject100_sess0_task0\<close>, its last two
  characters are \<open>00\<close>, the index is \<open>0 - 1\<close>, and the \<open>uint8\<close> tensor holds 255.
\<close>

theorem subject_index_three_digits:
  "(99, 0, 0) \<in> set (recordings 100)
   \<and> gw_batchfy 2 2 [(description 99 0 0, \<lparr>shape2 = (1, 3), data2 = [[1, 2, 3 :: int]]\<rparr>)]
        [(''task0'', \<lparr>shape2 = (1, 3), data2 = [[10, 20, 30 :: int]]\<rparr>)]
     = Inr ([[[1, 2]]], [[10, 20]], [255])
   \<and> getitem ([[[1, 2 :: int]]], [[10, 20 :: int]], [255 :: 8 word]) 0 = Inr ([[1, 2]], [10, 20], 255)
   \<and> \<not> unat (255 :: 8 word) < 100"
proof -
  have "(99, 0, 0) \<in> set (recordings 100)"
    by (simp add: recordings_def image_iff)
  moreover have
    "gw_batchfy 2 2 [(description 99 0 0, \<lparr>shape2 = (1, 3), data2 = [[1, 2, 3 :: int]]\<rparr>)]
        [(''task0'', \<lparr>shape2 = (1, 3), data2 = [[10, 20, 30 :: int]]\<rparr>)]
     = Inr ([[[1, 2]]], [[10, 20]], [255])"
    by code_simp
  moreover have
    "getitem ([[[1, 2 :: int]]], [[10, 20 :: int]], [255 :: 8 word]) 0 = Inr ([[1, 2]], [10, 20], 255)"
    by code_simp
  moreover have "\<not> unat (255 :: 8 word) < 100" by simp
  ultimately show ?thesis by blast
qed


subsection \<open>Real durations\<close>

lemma str_nat_digit: "n < 10 \<Longrightarrow> str_nat n = [digit_char n]"
  by (subst str_nat.simps) simp

lemma digit_char_zero: "digit_char 0 = CHR ''0''"
  by (simp add: digit_char_def char_zero)











subsection \<open>The toy dataset\<close>

lemma py_index_same:
  "length xs = length ys \<Longrightarrow> py_index xs i = Inr x \<Longrightarrow> py_index ys i = Inr y \<Longrightarrow>
   \<exists>j<length xs. x = xs ! j \<and> y = ys ! j"
proof (cases "0 \<le> i")
  case True
  assume "length xs = length ys" "py_index xs i = Inr x" "py_index ys i = Inr y"
  with True have "nat i < length xs \<and> x = xs ! nat i \<and> y = ys ! nat i"
    by (auto simp: py_index_def split: if_splits)
  then show ?thesis by blast
next
  case False
  assume "length xs = length ys" "py_index xs i = Inr x" "py_index ys i = Inr y"
  with False have "nat (int (length xs) + i) < length xs
      \<and> x = xs ! nat (int (length xs) + i) \<and> y = ys ! nat (int (length xs) + i)"
    by (auto simp: py_index_def split: if_splits)
  then show ?thesis by blast
qed

lemma nth_permute102: "i < n \<Longrightarrow> permute102 n rows ! i = map (\<lambda>row. row ! i) rows"
  by (simp add: permute102_def)

text \<open>
  Claim C10: in \<open>ToyDataset\<close>, with \<open>X_dim \<le> Y_dim\<close>, the brain tensor of every item
  is the first \<open>X_dim\<close> channels of the audio tensor of that item. The cosine is the
  same function on both sides, applied to the same entries.
\<close>

theorem toy_brain_is_audio_prefix:
  "rands \<noteq> [] \<and> factors \<noteq> [] \<and> 0 \<le> X_dim \<and> X_dim \<le> int (length factors) \<longrightarrow>
   (\<exists>X Y. toy_dataset rands factors seq_len X_dim subject_idxs = Inr (X, Y, subject_idxs)
      \<and> length X = length rands \<and> length Y = length rands
      \<and> (\<forall>i<length rands. length (Y ! i) = length factors \<and> X ! i = take (nat X_dim) (Y ! i))
      \<and> (\<forall>i x y s. getitem (X, Y, subject_idxs) i = Inr (x, y, s) \<longrightarrow> x = take (nat X_dim) y))"
proof
  assume a: "rands \<noteq> [] \<and> factors \<noteq> [] \<and> 0 \<le> X_dim \<and> X_dim \<le> int (length factors)"
  let ?n = "length rands"
  let ?Ypre = "map (\<lambda>f. map (map (\<lambda>v. v * f))
      (map (\<lambda>r. linspace (r * 10) (r * 10 + 10) seq_len) rands)) factors"
  let ?Y = "map (map (map cos)) (permute102 ?n ?Ypre)"
  let ?X = "map (map (map cos)) (permute102 ?n (take (nat X_dim) ?Ypre))"
  have res: "toy_dataset rands factors seq_len X_dim subject_idxs = Inr (?X, ?Y, subject_idxs)"
    using a by (simp add: toy_dataset_def Let_def py_slice_stop_nonneg)
  have lX: "length ?X = ?n" and lY: "length ?Y = ?n"
    by (simp_all add: length_permute102)
  have pre: "length (?Y ! i) = length factors \<and> ?X ! i = take (nat X_dim) (?Y ! i)"
    if "i < ?n" for i
    using that by (simp add: length_permute102 nth_permute102 take_map)
  have item: "x = take (nat X_dim) y" if g: "getitem (?X, ?Y, subject_idxs) i = Inr (x, y, s)"
    for i x y s
  proof -
    from g have "py_index ?X i = Inr x" "py_index ?Y i = Inr y"
      by (auto simp: getitem_def split: sum.splits)
    with py_index_same [of ?X ?Y i x y] lX lY obtain j where
      "j < ?n" "x = ?X ! j" "y = ?Y ! j" by auto
    with pre [of j] show ?thesis by simp
  qed
  show "\<exists>X Y. toy_dataset rands factors seq_len X_dim subject_idxs = Inr (X, Y, subject_idxs)
      \<and> length X = length rands \<and> length Y = length rands
      \<and> (\<forall>i<length rands. length (Y ! i) = length factors \<and> X ! i = take (nat X_dim) (Y ! i))
      \<and> (\<forall>i x y s. getitem (X, Y, subject_idxs) i = Inr (x, y, s) \<longrightarrow> x = take (nat X_dim) y)"
    using res lX lY pre item
    by (intro exI [of _ ?X] exI [of _ ?Y]) blast
qed

theorem toy_brain_is_audio_prefix_witness:
  "toy_dataset [0] [0, 1] 1 1 [7]
     = Inr ([[[cos (0 * 0)]]], [[[cos (0 * 0)], [cos (0 * 1)]]], [7])
   \<and> [[cos (0 * 0 :: real)]] = take (nat 1) [[cos (0 * 0)], [cos (0 * 1)]]"
proof -
  have h: "[0 :: real] \<noteq> [] \<and> [0, 1 :: real] \<noteq> [] \<and> (0 :: int) \<le> 1
      \<and> (1 :: int) \<le> int (length [0, 1 :: real])"
    by simp
  have e: "toy_dataset [0] [0, 1] 1 1 [7]
     = Inr ([[[cos (0 * 0)]]], [[[cos (0 * 0)], [cos (0 * 1)]]], [7])"
    by (simp add: toy_dataset_def Let_def linspace_def permute102_def py_slice_stop_def
        clip_index_def)
  from toy_brain_is_audio_prefix [where rands = "[0]" and factors = "[0, 1]" and X_dim = 1
      and seq_len = 1 and subject_idxs = "[7]"] h e
  have "[[[cos (0 * 0 :: real)]]] ! 0 = take (nat 1) ([[[cos (0 * 0)], [cos (0 * 1 :: real)]]] ! 0)"
    by auto
  with e show ?thesis by simp
qed

subsection \<open>Trimming the regions with no sound\<close>

lemma length_remdups_adj_pos: "0 < length (remdups_adj (x # xs))"
  by (cases "remdups_adj (x # xs)") (simp_all add: remdups_adj_Nil_iff)

lemma scan_boundaries_ok:
  "map sound_id_of annots = map Inr ids \<Longrightarrow>
   \<exists>m. scan_boundaries t prev acc annots = Inr (acc @ m)
     \<and> length m = 2 * (length (remdups_adj (prev # ids)) - 1)
     \<and> (\<forall>x\<in>set m. t - 1 \<le> x \<and> x < t + int (length ids))
     \<and> (\<forall>x\<in>set (tl m). t \<le> x)"
proof (induction annots arbitrary: ids t prev acc)
  case Nil
  then show ?case by simp
next
  case (Cons a rest)
  from Cons.prems obtain x xs where ids: "ids = x # xs" and a: "sound_id_of a = Inr x"
    and rest: "map sound_id_of rest = map Inr xs"
    by (cases ids) auto
  show ?case
  proof (cases "x = prev")
    case True
    from Cons.IH [OF rest, of "t + 1" prev acc] obtain m where
      m: "scan_boundaries (t + 1) prev acc rest = Inr (acc @ m)"
        "length m = 2 * (length (remdups_adj (prev # xs)) - 1)"
        "\<forall>x\<in>set m. t + 1 - 1 \<le> x \<and> x < t + 1 + int (length xs)"
        "\<forall>x\<in>set (tl m). t + 1 \<le> x"
      by blast
    have tlm: "set (tl m) \<subseteq> set m" by (cases m) auto
    have "scan_boundaries t prev acc (a # rest) = Inr (acc @ m)"
      using a True m(1) by simp
    moreover have "length m = 2 * (length (remdups_adj (prev # ids)) - 1)"
      using True ids m(2) by simp
    moreover have "\<forall>y\<in>set m. t - 1 \<le> y \<and> y < t + int (length ids)"
      using m(3) ids by auto
    moreover have "\<forall>y\<in>set (tl m). t \<le> y"
      using m(3) tlm by auto
    ultimately show ?thesis by blast
  next
    case False
    from Cons.IH [OF rest, of "t + 1" x "acc @ [t - 1, t]"] obtain m where
      m: "scan_boundaries (t + 1) x (acc @ [t - 1, t]) rest = Inr ((acc @ [t - 1, t]) @ m)"
        "length m = 2 * (length (remdups_adj (x # xs)) - 1)"
        "\<forall>y\<in>set m. t + 1 - 1 \<le> y \<and> y < t + 1 + int (length xs)"
        "\<forall>y\<in>set (tl m). t + 1 \<le> y"
      by blast
    let ?m = "[t - 1, t] @ m"
    have "scan_boundaries t prev acc (a # rest) = Inr (acc @ ?m)"
      using a False m(1) by simp
    moreover have "length ?m = 2 * (length (remdups_adj (prev # ids)) - 1)"
    proof -
      obtain k where k: "length (remdups_adj (x # xs)) = Suc k"
        using length_remdups_adj_pos [of x xs] by (cases "length (remdups_adj (x # xs))") auto
      with False ids m(2) show ?thesis by simp
    qed
    moreover have "\<forall>y\<in>set ?m. t - 1 \<le> y \<and> y < t + int (length ids)"
      using m(3) ids by auto
    moreover have "\<forall>y\<in>set (tl ?m). t \<le> y"
      using m(3) by auto
    ultimately show ?thesis by blast
  qed
qed

lemma length_pairs: "length (pairs xs) = length xs div 2"
  by (induction xs rule: pairs.induct) simp_all

lemma set_pairs: "p \<in> set (pairs xs) \<Longrightarrow> fst p \<in> set xs \<and> snd p \<in> set xs"
  by (induction xs rule: pairs.induct) auto

lemma segment_pairs_ok:
  assumes "annots \<noteq> []" "map sound_id_of annots = map Inr ids" "hd ids \<noteq> Num (- 1)"
  shows "\<exists>ps. segment_pairs annots = Inr ps \<and> length ps = length (remdups_adj ids)
     \<and> ps \<noteq> []
     \<and> (\<forall>p\<in>set ps. 0 \<le> fst p \<and> fst p < int (length annots)
                    \<and> 0 \<le> snd p \<and> snd p < int (length annots))"
proof -
  from assms(1,2) obtain x xs where ids: "ids = x # xs" by (cases ids) auto
  from assms(2) have len: "length ids = length annots" by (metis length_map)
  from scan_boundaries_ok [OF assms(2), of 0 "Num (- 1)" "[]"] obtain m where
    m: "scan_boundaries 0 (Num (- 1)) [] annots = Inr m"
      "length m = 2 * (length (remdups_adj (Num (- 1) # ids)) - 1)"
      "\<forall>y\<in>set m. 0 - 1 \<le> y \<and> y < 0 + int (length ids)"
      "\<forall>y\<in>set (tl m). 0 \<le> y"
    by auto
  let ?N = "length (remdups_adj ids)"
  have N: "0 < ?N" using ids length_remdups_adj_pos [of x xs] by simp
  have lm: "length m = 2 * ?N" using m(2) assms(3) ids by simp
  let ?se = "py_slice_start 1 m @ [int (length annots) - 1]"
  have sl: "py_slice_start 1 m = tl m"
    by (cases m) (simp_all add: py_slice_start_def clip_index_def)
  have lse: "length ?se = 2 * ?N" using lm N by (simp add: sl)
  have tlm: "set (tl m) \<subseteq> set m" by (cases m) auto
  have rng: "\<forall>y\<in>set ?se. 0 \<le> y \<and> y < int (length annots)"
    using m(3,4) tlm len assms(1) by (auto simp: sl)
  have sp: "segment_pairs annots = Inr (pairs ?se)"
    using m(1) assms(1) lse by (simp add: segment_pairs_def Let_def)
  have lp: "length (pairs ?se) = ?N" using lse by (simp add: length_pairs)
  have ne: "pairs ?se \<noteq> []" using lp N by auto
  have "\<forall>p\<in>set (pairs ?se). 0 \<le> fst p \<and> fst p < int (length annots)
                    \<and> 0 \<le> snd p \<and> snd p < int (length annots)"
    using rng set_pairs [of _ ?se] by blast
  with sp lp ne show ?thesis by blast
qed

lemma series_get_Inr: "series_get annots k = Inr a \<Longrightarrow> a = annots ! nat k"
  by (auto simp: series_get_def split: if_splits)

lemma series_get_ok:
  "0 \<le> k \<Longrightarrow> k < int (length annots) \<Longrightarrow> series_get annots k = Inr (annots ! nat k)"
  by (simp add: series_get_def)

lemma shape2_slice2: "shape2 M = (C, L) \<Longrightarrow>
  shape2 (slice2 a b M) = (C, clip_index b L - clip_index a L)"
  by (simp add: slice2_def)

lemma length_py_slice:
  "length (py_slice a b xs) = clip_index b (length xs) - clip_index a (length xs)"
  using clip_index_le [of b "length xs"] by (simp add: py_slice_def Let_def)

lemma map_nth_fun: "map (\<lambda>c. f (xs ! c)) [0..<length xs] = map f xs"
  by (rule nth_equalityI) simp_all

lemma concatenate_axis1_ok:
  "Ts \<noteq> [] \<Longrightarrow> list_all (\<lambda>T'. fst (shape2 T') = C) Ts \<Longrightarrow>
   concatenate_axis1 Ts =
     Inr \<lparr>shape2 = (C, sum_list (map (\<lambda>T'. snd (shape2 T')) Ts)),
          data2 = map (\<lambda>c. concat (map (\<lambda>T'. data2 T' ! c) Ts)) [0..<C]\<rparr>"
  by (cases Ts) (auto simp: concatenate_axis1_def)

lemma concatenate_slices:
  assumes "ps \<noteq> []" "shape2 M = (C, L)" "length (data2 M) = C"
  shows "concatenate_axis1 (map (\<lambda>p. slice2 (f p) (g p) M) ps) =
    Inr \<lparr>shape2 = (C, sum_list (map (\<lambda>p. clip_index (g p) L - clip_index (f p) L) ps)),
         data2 = map (\<lambda>row. concat (map (\<lambda>p. py_slice (f p) (g p) row) ps)) (data2 M)\<rparr>"
proof -
  let ?Ts = "map (\<lambda>p. slice2 (f p) (g p) M) ps"
  have ne: "?Ts \<noteq> []" using assms(1) by simp
  have all: "list_all (\<lambda>T'. fst (shape2 T') = C) ?Ts"
    using assms(2) by (simp add: list_all_iff shape2_slice2)
  have "map (\<lambda>c. concat (map (\<lambda>T'. data2 T' ! c) ?Ts)) [0..<C]
      = map (\<lambda>c. concat (map (\<lambda>p. py_slice (f p) (g p) (data2 M ! c)) ps)) [0..<length (data2 M)]"
    using assms(2,3) by (auto simp: slice2_def o_def)
  also have "\<dots> = map (\<lambda>row. concat (map (\<lambda>p. py_slice (f p) (g p) row) ps)) (data2 M)"
    by (rule map_nth_fun)
  finally have d: "map (\<lambda>c. concat (map (\<lambda>T'. data2 T' ! c) ?Ts)) [0..<C]
    = map (\<lambda>row. concat (map (\<lambda>p. py_slice (f p) (g p) row) ps)) (data2 M)" .
  have sh: "map (\<lambda>T'. snd (shape2 T')) ?Ts
    = map (\<lambda>p. clip_index (g p) L - clip_index (f p) L) ps"
    using assms(2) by (simp add: shape2_slice2)
  show ?thesis
    by (simp only: concatenate_axis1_ok [OF ne all] d sh)
qed

lemma cut_segments_Inr:
  "cut_segments meg_raw annots ps = Inr r \<Longrightarrow>
   (\<forall>p\<in>set ps. \<not> isl (index_ms (segment_start annots p))
                \<and> \<not> isl (index_ms (segment_stop annots p)))
   \<and> r = (map (\<lambda>p. slice2 (projr (index_ms (segment_start annots p)))
                          (projr (index_ms (segment_stop annots p))) meg_raw) ps,
          map (\<lambda>p. fsub (segment_stop annots p) (segment_start annots p)) ps)"
proof (induction ps arbitrary: r)
  case Nil
  then show ?case by simp
next
  case (Cons p rest)
  from Cons.prems obtain a_start a_end a b r' where
    s: "series_get annots (fst p) = Inr a_start" and e: "series_get annots (snd p) = Inr a_end"
    and ia: "index_ms (to_second (onset a_start)) = Inr a"
    and ib: "index_ms (fadd (to_second (onset a_end)) (duration a_end)) = Inr b"
    and r': "cut_segments meg_raw annots rest = Inr r'"
    by (auto simp: Let_def split: sum.splits)
  have as: "a_start = annots ! nat (fst p)" by (rule series_get_Inr [OF s])
  have ae: "a_end = annots ! nat (snd p)" by (rule series_get_Inr [OF e])
  have sa: "index_ms (segment_start annots p) = Inr a"
    using ia by (simp add: segment_start_def as)
  have sb: "index_ms (segment_stop annots p) = Inr b"
    using ib by (simp add: segment_stop_def ae)
  from Cons.prems have
    "r = (slice2 a b meg_raw # fst r',
          fsub (fadd (to_second (onset a_end)) (duration a_end)) (to_second (onset a_start)) # snd r')"
    by (simp add: s e ia ib r' Let_def)
  then have r: "r = (slice2 a b meg_raw # fst r',
      fsub (segment_stop annots p) (segment_start annots p) # snd r')"
    by (simp add: segment_start_def segment_stop_def as ae)
  note ih = Cons.IH [OF r']
  show ?case using r sa sb ih by simp
qed

lemma cut_segments_ok:
  assumes "\<forall>p\<in>set ps. 0 \<le> fst p \<and> fst p < int (length annots)
                \<and> 0 \<le> snd p \<and> snd p < int (length annots)"
    and "list_all times_convert annots"
  shows "\<exists>r. cut_segments meg_raw annots ps = Inr r"
  using assms(1)
proof (induction ps)
  case Nil
  then show ?case by simp
next
  case (Cons p rest)
  then obtain r' where r': "cut_segments meg_raw annots rest = Inr r'" by auto
  from Cons.prems have rng: "0 \<le> fst p" "fst p < int (length annots)"
    "0 \<le> snd p" "snd p < int (length annots)" by simp_all
  then have "annots ! nat (fst p) \<in> set annots" "annots ! nat (snd p) \<in> set annots"
    by simp_all
  with assms(2) have "times_convert (annots ! nat (fst p))" "times_convert (annots ! nat (snd p))"
    by (simp_all add: list_all_iff)
  then obtain a b where
    "index_ms (to_second (onset (annots ! nat (fst p)))) = Inr a"
    "index_ms (fadd (to_second (onset (annots ! nat (snd p))))
        (duration (annots ! nat (snd p)))) = Inr b"
    unfolding times_convert_def by (metis sum.collapse(2))
  with rng r' show ?case by (simp add: series_get_ok Let_def)
qed

lemma trim_nosound_regions_Inr:
  assumes "trim_nosound_regions meg_raw annots = Inr (meg_trimmed, durs)"
  shows "\<exists>ps. segment_pairs annots = Inr ps \<and> ps \<noteq> []
     \<and> (\<forall>p\<in>set ps. \<not> isl (index_ms (segment_start annots p))
                  \<and> \<not> isl (index_ms (segment_stop annots p)))
     \<and> durs = map (\<lambda>p. fsub (segment_stop annots p) (segment_start annots p)) ps
     \<and> concatenate_axis1 (map (\<lambda>p. slice2 (projr (index_ms (segment_start annots p)))
                        (projr (index_ms (segment_stop annots p))) meg_raw) ps) = Inr meg_trimmed"
proof -
  from assms obtain ps r where ps: "segment_pairs annots = Inr ps"
    and r: "cut_segments meg_raw annots ps = Inr r"
    and c: "concatenate_axis1 (fst r) = Inr meg_trimmed" and d: "durs = snd r"
    by (auto simp: trim_nosound_regions_def split: sum.splits)
  note r' = cut_segments_Inr [OF r]
  from c r' have "ps \<noteq> []" by (auto simp: concatenate_axis1_def)
  with ps c d r' show ?thesis by auto
qed

lemma trim_nosound_regions_ok:
  assumes "segment_pairs annots = Inr ps" "ps \<noteq> []"
    "\<forall>p\<in>set ps. 0 \<le> fst p \<and> fst p < int (length annots)
                \<and> 0 \<le> snd p \<and> snd p < int (length annots)"
    "list_all times_convert annots"
    "shape2 meg_raw = (C, L)" "length (data2 meg_raw) = C"
  shows "trim_nosound_regions meg_raw annots =
    Inr (\<lparr>shape2 = (C, sum_list (map (\<lambda>p.
              clip_index (projr (index_ms (segment_stop annots p))) L
               - clip_index (projr (index_ms (segment_start annots p))) L) ps)),
          data2 = map (\<lambda>row. concat (map (\<lambda>p.
              py_slice (projr (index_ms (segment_start annots p)))
                       (projr (index_ms (segment_stop annots p))) row) ps)) (data2 meg_raw)\<rparr>,
         map (\<lambda>p. fsub (segment_stop annots p) (segment_start annots p)) ps)"
proof -
  from cut_segments_ok [OF assms(3,4), of meg_raw] obtain r where
    r: "cut_segments meg_raw annots ps = Inr r" by blast
  from cut_segments_Inr [OF r] have r':
    "r = (map (\<lambda>p. slice2 (projr (index_ms (segment_start annots p)))
                          (projr (index_ms (segment_stop annots p))) meg_raw) ps,
          map (\<lambda>p. fsub (segment_stop annots p) (segment_start annots p)) ps)"
    by blast
  note c = concatenate_slices [OF assms(2,5,6),
      of "\<lambda>p. projr (index_ms (segment_start annots p))"
         "\<lambda>p. projr (index_ms (segment_stop annots p))"]
  show ?thesis
    unfolding trim_nosound_regions_def
    by (simp only: assms(1) r sum.case r' fst_conv snd_conv c)
qed

text \<open>
  Claim C5, amended: for a well-formed brain matrix and a stream of annotations that is
  not empty, whose descriptions all give a sound identifier, whose first sound
  identifier is not \<open>-1.0\<close> (the starting value of \<open>prev_sound_id\<close>) and whose onsets and
  ends, as doubles multiplied by 1000, are finite (so that \<open>int\<close> returns), where the
  sound identifiers have \<open>N\<close> maximal runs of equal consecutive values,
  \<open>trim_nosound_regions\<close> returns a matrix whose time length is the sum of the lengths of
  the slices \<open>[int(start * 1000):int(end * 1000)]\<close> of the segments, and exactly \<open>N\<close>
  durations.
\<close>

theorem trim_nosound_regions_segments:
  "annots \<noteq> [] \<and> map sound_id_of annots = map Inr ids \<and> hd ids \<noteq> Num (- 1)
   \<and> list_all times_convert annots \<and> wf2 meg_raw \<and> shape2 meg_raw = (C, L) \<longrightarrow>
   (\<exists>meg_trimmed durs ps.
      trim_nosound_regions meg_raw annots = Inr (meg_trimmed, durs)
      \<and> segment_pairs annots = Inr ps
      \<and> length ps = length (remdups_adj ids)
      \<and> length durs = length (remdups_adj ids)
      \<and> shape2 meg_trimmed =
          (C, sum_list (map (\<lambda>p. clip_index (projr (index_ms (segment_stop annots p))) L
                               - clip_index (projr (index_ms (segment_start annots p))) L) ps))
      \<and> wf2 meg_trimmed)"
proof
  assume a: "annots \<noteq> [] \<and> map sound_id_of annots = map Inr ids \<and> hd ids \<noteq> Num (- 1)
   \<and> list_all times_convert annots \<and> wf2 meg_raw \<and> shape2 meg_raw = (C, L)"
  then have wf: "length (data2 meg_raw) = C" "\<forall>row\<in>set (data2 meg_raw). length row = L"
    by (auto simp: wf2_def list_all_iff)
  from a segment_pairs_ok [of annots ids] obtain ps where
    ps: "segment_pairs annots = Inr ps" "length ps = length (remdups_adj ids)" "ps \<noteq> []"
      "\<forall>p\<in>set ps. 0 \<le> fst p \<and> fst p < int (length annots)
                    \<and> 0 \<le> snd p \<and> snd p < int (length annots)"
    by blast
  from a have tc: "list_all times_convert annots" by simp
  let ?a = "\<lambda>p. projr (index_ms (segment_start annots p))"
  let ?b = "\<lambda>p. projr (index_ms (segment_stop annots p))"
  let ?n = "sum_list (map (\<lambda>p. clip_index (?b p) L - clip_index (?a p) L) ps)"
  let ?T = "\<lparr>shape2 = (C, ?n),
          data2 = map (\<lambda>row. concat (map (\<lambda>p. py_slice (?a p) (?b p) row) ps)) (data2 meg_raw)\<rparr>"
  let ?d = "map (\<lambda>p. fsub (segment_stop annots p) (segment_start annots p)) ps"
  have res: "trim_nosound_regions meg_raw annots = Inr (?T, ?d)"
    using a by (intro trim_nosound_regions_ok [OF ps(1,3,4) tc _ wf(1)]) simp
  have row: "length (concat (map (\<lambda>p. py_slice (?a p) (?b p) row) ps)) = ?n"
    if "row \<in> set (data2 meg_raw)" for row
  proof -
    from that wf(2) have "length row = L" by blast
    then show ?thesis by (simp add: length_concat o_def length_py_slice)
  qed
  have "wf2 ?T" using wf(1) row by (simp add: wf2_def list_all_iff)
  with res ps(1,2) show "\<exists>meg_trimmed durs ps.
      trim_nosound_regions meg_raw annots = Inr (meg_trimmed, durs)
      \<and> segment_pairs annots = Inr ps
      \<and> length ps = length (remdups_adj ids)
      \<and> length durs = length (remdups_adj ids)
      \<and> shape2 meg_trimmed =
          (C, sum_list (map (\<lambda>p. clip_index (projr (index_ms (segment_stop annots p))) L
                               - clip_index (projr (index_ms (segment_start annots p))) L) ps))
      \<and> wf2 meg_trimmed"
    by (intro exI [of _ ?T] exI [of _ ?d] exI [of _ ps]) simp
qed

text \<open>
  Claim C6: for every detected segment, with its start and end in seconds, the matrix
  is sliced from \<open>int(start * 1000)\<close> to \<open>int(end * 1000)\<close>, both computed on doubles,
  whatever the sample rate of the matrix, which the function never sees; the durations
  are \<open>end - start\<close>.
\<close>

theorem trim_nosound_regions_millisecond_slices:
  "wf2 meg_raw \<and> trim_nosound_regions meg_raw annots = Inr (meg_trimmed, durs) \<longrightarrow>
   (\<exists>ps. segment_pairs annots = Inr ps
      \<and> (\<forall>p\<in>set ps. \<not> isl (index_ms (segment_start annots p))
                   \<and> \<not> isl (index_ms (segment_stop annots p)))
      \<and> durs = map (\<lambda>p. fsub (segment_stop annots p) (segment_start annots p)) ps
      \<and> data2 meg_trimmed =
          map (\<lambda>row. concat (map (\<lambda>p. py_slice (projr (index_ms (segment_start annots p)))
                                              (projr (index_ms (segment_stop annots p))) row) ps))
            (data2 meg_raw))"
proof
  assume a: "wf2 meg_raw \<and> trim_nosound_regions meg_raw annots = Inr (meg_trimmed, durs)"
  obtain C L where sh: "shape2 meg_raw = (C, L)" by (cases "shape2 meg_raw") auto
  with a have len: "length (data2 meg_raw) = C" by (simp add: wf2_def)
  from a trim_nosound_regions_Inr [of meg_raw annots meg_trimmed durs] obtain ps where
    ps: "segment_pairs annots = Inr ps" "ps \<noteq> []"
      "\<forall>p\<in>set ps. \<not> isl (index_ms (segment_start annots p))
                   \<and> \<not> isl (index_ms (segment_stop annots p))"
      "durs = map (\<lambda>p. fsub (segment_stop annots p) (segment_start annots p)) ps"
      "concatenate_axis1 (map (\<lambda>p. slice2 (projr (index_ms (segment_start annots p)))
                        (projr (index_ms (segment_stop annots p))) meg_raw) ps) = Inr meg_trimmed"
    by blast
  from ps(5) concatenate_slices [OF ps(2) sh len,
      of "\<lambda>p. projr (index_ms (segment_start annots p))"
         "\<lambda>p. projr (index_ms (segment_stop annots p))"]
  have "data2 meg_trimmed =
          map (\<lambda>row. concat (map (\<lambda>p. py_slice (projr (index_ms (segment_start annots p)))
                                              (projr (index_ms (segment_stop annots p))) row) ps))
            (data2 meg_raw)"
    by auto
  with ps(1,3,4) show "\<exists>ps. segment_pairs annots = Inr ps
      \<and> (\<forall>p\<in>set ps. \<not> isl (index_ms (segment_start annots p))
                   \<and> \<not> isl (index_ms (segment_stop annots p)))
      \<and> durs = map (\<lambda>p. fsub (segment_stop annots p) (segment_start annots p)) ps
      \<and> data2 meg_trimmed =
          map (\<lambda>row. concat (map (\<lambda>p. py_slice (projr (index_ms (segment_start annots p)))
                                              (projr (index_ms (segment_stop annots p))) row) ps))
            (data2 meg_raw)"
    by blast
qed

text \<open>
  Three annotations with the onsets 0:00.000, 0:00.001 and 0:00.007, each lasting
  \<open>0.001\<close>, with the sound identifiers 3, 3, 5. The onset 0:00.007 is the double
  \<open>0.006999999999999999\<close>, whose index is 6; its segment ends at \<open>0.008\<close> and lasts
  \<open>0.0010000000000000009\<close>.
\<close>

theorem trim_nosound_regions_segments_witness:
  "trim_nosound_regions \<lparr>shape2 = (1, 10), data2 = [[0, 1, 2, 3, 4, 5, 6, 7, 8, 9 :: int]]\<rparr>
     [\<lparr>onset = \<lparr>minute = 0, second = 0, microsecond = 0\<rparr>, duration = Finite (1152921504606847 / 1152921504606846976),
        desc = Some [(''sound_id'', Num (3))]\<rparr>,
      \<lparr>onset = \<lparr>minute = 0, second = 0, microsecond = 1000\<rparr>, duration = Finite (1152921504606847 / 1152921504606846976),
        desc = Some [(''sound_id'', Num (3))]\<rparr>,
      \<lparr>onset = \<lparr>minute = 0, second = 0, microsecond = 7000\<rparr>, duration = Finite (1152921504606847 / 1152921504606846976),
        desc = Some [(''sound_id'', Num (5))]\<rparr>]
   = Inr (\<lparr>shape2 = (1, 4), data2 = [[0, 1, 6, 7]]\<rparr>, [Finite (1152921504606847 / 576460752303423488), Finite (9007199254741 / 9007199254740992)])
   \<and> length [Finite (1152921504606847 / 576460752303423488), Finite (9007199254741 / 9007199254740992)] = length (remdups_adj [Num 3, Num 3, Num 5])"
proof -
  let ?M = "\<lparr>shape2 = (1, 10), data2 = [[0, 1, 2, 3, 4, 5, 6, 7, 8, 9 :: int]]\<rparr>"
  let ?A = "[\<lparr>onset = \<lparr>minute = 0, second = 0, microsecond = 0\<rparr>, duration = Finite (1152921504606847 / 1152921504606846976),
        desc = Some [(''sound_id'', Num (3))]\<rparr>,
      \<lparr>onset = \<lparr>minute = 0, second = 0, microsecond = 1000\<rparr>, duration = Finite (1152921504606847 / 1152921504606846976),
        desc = Some [(''sound_id'', Num (3))]\<rparr>,
      \<lparr>onset = \<lparr>minute = 0, second = 0, microsecond = 7000\<rparr>, duration = Finite (1152921504606847 / 1152921504606846976),
        desc = Some [(''sound_id'', Num (5))]\<rparr>]"
  have h: "?A \<noteq> [] \<and> map sound_id_of ?A = map Inr [Num 3, Num 3, Num 5]
     \<and> hd [Num 3, Num 3, Num 5] \<noteq> Num (- 1) \<and> list_all times_convert ?A
     \<and> wf2 ?M \<and> shape2 ?M = (1, 10)"
    by (simp add: sound_id_of_def wf2_def times_convert_def to_second_def float_of_int_def
        index_ms_def py_int_def r64_values)
  have e: "trim_nosound_regions ?M ?A
     = Inr (\<lparr>shape2 = (1, 4), data2 = [[0, 1, 6, 7]]\<rparr>, [Finite (1152921504606847 / 576460752303423488), Finite (9007199254741 / 9007199254740992)])"
    by (simp add: trim_nosound_regions_def segment_pairs_def sound_id_of_def py_slice_start_def
      clip_index_def series_get_def to_second_def float_of_int_def index_ms_def fsub_def
      py_int_values slice2_def py_slice_def concatenate_axis1_def Let_def upt_conv_Cons
      r64_values)
  from trim_nosound_regions_segments [where annots = ?A and ids = "[Num 3, Num 3, Num 5]"
      and meg_raw = ?M and C = 1 and L = 10] h e
  have "length [Finite (1152921504606847 / 576460752303423488), Finite (9007199254741 / 9007199254740992)] = length (remdups_adj [Num 3, Num 3, Num 5])"
    by auto
  with e show ?thesis by simp
qed

text \<open>
  With the sound identifiers \<open>-1.0, 3.0\<close> there are two runs; the first one is not seen
  and one duration is returned.
\<close>

theorem trim_nosound_regions_sentinel_first:
  "trim_nosound_regions \<lparr>shape2 = (1, 4), data2 = [[1, 2, 3, 4 :: int]]\<rparr>
     [\<lparr>onset = \<lparr>minute = 0, second = 0, microsecond = 0\<rparr>, duration = Finite (1152921504606847 / 1152921504606846976),
        desc = Some [(''sound_id'', Num (- 1))]\<rparr>,
      \<lparr>onset = \<lparr>minute = 0, second = 0, microsecond = 1000\<rparr>, duration = Finite (1152921504606847 / 1152921504606846976),
        desc = Some [(''sound_id'', Num (3))]\<rparr>]
   = Inr (\<lparr>shape2 = (1, 1), data2 = [[2]]\<rparr>, [Finite (1152921504606847 / 1152921504606846976)])
   \<and> length (remdups_adj [Num (- 1), Num 3]) = 2
   \<and> length [Finite (1152921504606847 / 1152921504606846976)] \<noteq> 2"
  by (simp add: trim_nosound_regions_def segment_pairs_def sound_id_of_def py_slice_start_def
      clip_index_def series_get_def to_second_def float_of_int_def index_ms_def fsub_def
      py_int_values slice2_def py_slice_def concatenate_axis1_def Let_def upt_conv_Cons
      r64_values)

text \<open>
  One annotation at 0:00.007 lasting \<open>0.001\<close>: the rows are cut to \<open>[6:8]\<close>.
\<close>

theorem trim_nosound_regions_millisecond_slices_witness:
  "trim_nosound_regions
     \<lparr>shape2 = (2, 10), data2 = [[0, 1, 2, 3, 4, 5, 6, 7, 8, 9 :: int],
                                [10, 11, 12, 13, 14, 15, 16, 17, 18, 19]]\<rparr>
     [\<lparr>onset = \<lparr>minute = 0, second = 0, microsecond = 7000\<rparr>, duration = Finite (1152921504606847 / 1152921504606846976),
        desc = Some [(''sound_id'', Num (0))]\<rparr>]
   = Inr (\<lparr>shape2 = (2, 2), data2 = [[6, 7], [16, 17]]\<rparr>, [Finite (9007199254741 / 9007199254740992)])
   \<and> index_ms (segment_start [\<lparr>onset = \<lparr>minute = 0, second = 0, microsecond = 7000\<rparr>, duration = Finite (1152921504606847 / 1152921504606846976),
        desc = Some [(''sound_id'', Num (0))]\<rparr>] (0, 0)) = Inr 6
   \<and> index_ms (segment_stop [\<lparr>onset = \<lparr>minute = 0, second = 0, microsecond = 7000\<rparr>, duration = Finite (1152921504606847 / 1152921504606846976),
        desc = Some [(''sound_id'', Num (0))]\<rparr>] (0, 0)) = Inr 8
   \<and> [[6, 7], [16, 17]] =
       map (py_slice 6 8) [[0, 1, 2, 3, 4, 5, 6, 7, 8, 9 :: int],
                           [10, 11, 12, 13, 14, 15, 16, 17, 18, 19]]"
proof -
  let ?M = "\<lparr>shape2 = (2, 10), data2 = [[0, 1, 2, 3, 4, 5, 6, 7, 8, 9 :: int],
                                [10, 11, 12, 13, 14, 15, 16, 17, 18, 19]]\<rparr>"
  let ?A = "[\<lparr>onset = \<lparr>minute = 0, second = 0, microsecond = 7000\<rparr>, duration = Finite (1152921504606847 / 1152921504606846976),
        desc = Some [(''sound_id'', Num (0))]\<rparr>]"
  let ?T = "\<lparr>shape2 = (2, 2), data2 = [[6, 7], [16, 17 :: int]]\<rparr>"
  have w: "wf2 ?M" by (simp add: wf2_def)
  have e: "trim_nosound_regions ?M ?A = Inr (?T, [Finite (9007199254741 / 9007199254740992)])"
    by (simp add: trim_nosound_regions_def segment_pairs_def sound_id_of_def py_slice_start_def
      clip_index_def series_get_def to_second_def float_of_int_def index_ms_def fsub_def
      py_int_values slice2_def py_slice_def concatenate_axis1_def Let_def upt_conv_Cons
      r64_values)
  have sp: "segment_pairs ?A = Inr [(0, 0)]"
    by (simp add: segment_pairs_def sound_id_of_def py_slice_start_def clip_index_def)
  have st: "index_ms (segment_start ?A (0, 0)) = Inr 6" "index_ms (segment_stop ?A (0, 0)) = Inr 8"
    by (simp_all add: segment_start_def segment_stop_def to_second_def float_of_int_def
        index_ms_def py_int_values r64_values)
  from trim_nosound_regions_millisecond_slices [where meg_raw = ?M and annots = ?A
      and meg_trimmed = ?T and durs = "[Finite (9007199254741 / 9007199254740992)]"] w e
  obtain ps where ps: "segment_pairs ?A = Inr ps"
    "data2 ?T = map (\<lambda>row. concat (map (\<lambda>p. py_slice (projr (index_ms (segment_start ?A p)))
                                              (projr (index_ms (segment_stop ?A p))) row) ps))
            (data2 ?M)"
    by blast
  from ps(1) sp have "ps = [(0, 0)]" by simp
  with ps(2) have "[[6, 7], [16, 17]] =
       map (py_slice 6 8) [[0, 1, 2, 3, 4, 5, 6, 7, 8, 9 :: int],
                           [10, 11, 12, 13, 14, 15, 16, 17, 18, 19]]"
    by (simp only: st sum.sel tensor2.simps list.map concat.simps append_Nil2)
  with e st show ?thesis by blast
qed


subsection \<open>The audio cut\<close>

text \<open>
  Claim C8, amended: when \<open>cutoff = int(sample_rate * real_duration)\<close>, computed on
  doubles, is not negative, a stimulus waveform longer than the cutoff is cut to
  \<open>cutoff\<close> samples, which is \<open>min(length, cutoff)\<close>; a waveform that is not longer than
  the cutoff is left as it is and \<open>No audio cutoff\<close> is printed.
\<close>

theorem audio_cut_length:
  "map_of durations (''task'' @ str_nat task_idx) = Some ds \<and> f < length ds
   \<and> py_int_of_float (fmul (float_of_int sample_rate) (ds ! f)) = Inr cutoff \<and> 0 \<le> cutoff
   \<and> shape2 waveform = (C, L) \<longrightarrow>
   (\<exists>w p. audio_cut durations task_idx f sample_rate waveform printed_so_far = Inr (w, p)
      \<and> shape2 w = (C, if int L > cutoff then min L (nat cutoff) else L)
      \<and> (int L > cutoff \<longrightarrow>
           data2 w = map (take (nat cutoff)) (data2 waveform) \<and> p = printed_so_far)
      \<and> (int L \<le> cutoff \<longrightarrow>
           w = waveform \<and> p = printed_so_far @ [Msg ''No audio cutoff'']))"
proof
  assume a: "map_of durations (''task'' @ str_nat task_idx) = Some ds \<and> f < length ds
   \<and> py_int_of_float (fmul (float_of_int sample_rate) (ds ! f)) = Inr cutoff \<and> 0 \<le> cutoff
   \<and> shape2 waveform = (C, L)"
  then have c: "0 \<le> cutoff" by simp
  show "\<exists>w p. audio_cut durations task_idx f sample_rate waveform printed_so_far = Inr (w, p)
      \<and> shape2 w = (C, if int L > cutoff then min L (nat cutoff) else L)
      \<and> (int L > cutoff \<longrightarrow>
           data2 w = map (take (nat cutoff)) (data2 waveform) \<and> p = printed_so_far)
      \<and> (int L \<le> cutoff \<longrightarrow>
           w = waveform \<and> p = printed_so_far @ [Msg ''No audio cutoff''])"
  proof (cases "int L > cutoff")
    case True
    with a c show ?thesis
      by (simp add: audio_cut_def slice2_stop_def clip_index_def py_slice_stop_nonneg
          min.commute cong: map_cong)
  next
    case False
    with a c show ?thesis
      by (simp add: audio_cut_def)
  qed
qed

text \<open>
  At 16000 Hz the duration \<open>0.009\<close> gives the cutoff 144: the product of the doubles is
  \<open>144.00000000000003\<close>.
\<close>

theorem audio_cut_length_witness:
  "audio_cut [(''task0'', [Finite (5188146770730811 / 576460752303423488)])] 0 0 16000
     \<lparr>shape2 = (1, 150), data2 = [replicate 150 (0 :: int)]\<rparr> []
     = Inr (\<lparr>shape2 = (1, 144), data2 = [replicate 144 0]\<rparr>, [])
   \<and> py_int_of_float (fmul (float_of_int 16000) (Finite (5188146770730811 / 576460752303423488))) = Inr 144
   \<and> min (150 :: nat) (nat 144) = 144"
proof -
  let ?w = "\<lparr>shape2 = (1, 150), data2 = [replicate 150 (0 :: int)]\<rparr>"
  let ?d = "[(''task0'', [Finite (5188146770730811 / 576460752303423488)])]"
  have k: "str_nat 0 = ''0''"
    using str_nat_digit [of 0] by (simp add: digit_char_zero)
  have c: "py_int_of_float (fmul (float_of_int 16000) (Finite (5188146770730811 / 576460752303423488))) = Inr 144"
    by (simp add: float_of_int_def r64_values py_int_values)
  have h: "map_of ?d (''task'' @ str_nat 0) = Some [Finite (5188146770730811 / 576460752303423488)]
     \<and> (0 :: nat) < length [Finite (5188146770730811 / 576460752303423488)]
     \<and> py_int_of_float (fmul (float_of_int 16000) ([Finite (5188146770730811 / 576460752303423488)] ! 0)) = Inr 144
     \<and> (0 :: int) \<le> 144 \<and> shape2 ?w = (1, 150)"
    using c by (simp add: k)
  from audio_cut_length [where durations = ?d and task_idx = 0
      and ds = "[Finite (5188146770730811 / 576460752303423488)]" and f = 0 and sample_rate = 16000 and waveform = ?w
      and C = 1 and L = 150 and cutoff = 144 and printed_so_far = "[]"] h
  obtain w p where r: "audio_cut ?d 0 0 16000 ?w [] = Inr (w, p)"
    "shape2 w = (1, 144)" "data2 w = [replicate 144 0]" "p = []"
    by auto
  then have "w = \<lparr>shape2 = (1, 144), data2 = [replicate 144 0]\<rparr>" by (cases w) simp
  with r c show ?thesis by simp
qed

text \<open>
  A negative duration gives a negative cutoff, and \<open>waveform[:, :cutoff]\<close> then drops
  samples from the end: at 2 Hz and a duration of \<open>-1.0\<close> a waveform of 5 samples keeps
  3 of them, which is not \<open>min(5, -2)\<close>.
\<close>

theorem audio_cut_negative_duration:
  "audio_cut [(''task0'', [Finite (- 1)])] 0 0 2
     \<lparr>shape2 = (1, 5), data2 = [[1, 2, 3, 4, 5 :: int]]\<rparr> []
     = Inr (\<lparr>shape2 = (1, 3), data2 = [[1, 2, 3]]\<rparr>, [])
   \<and> py_int_of_float (fmul (float_of_int 2) (Finite (- 1))) = Inr (- 2)
   \<and> (- 2 :: int) < 5
   \<and> (3 :: int) \<noteq> min 5 (- 2)"
proof -
  have k: "str_nat 0 = ''0''"
    using str_nat_digit [of 0] by (simp add: digit_char_zero)
  have c: "py_int_of_float (fmul (float_of_int 2) (Finite (- 1))) = Inr (- 2)"
    by (simp add: float_of_int_def r64_values py_int_values)
  have "audio_cut [(''task0'', [Finite (- 1)])] 0 0 2
     \<lparr>shape2 = (1, 5), data2 = [[1, 2, 3, 4, 5 :: int]]\<rparr> []
     = Inr (\<lparr>shape2 = (1, 3), data2 = [[1, 2, 3]]\<rparr>, [])"
    using c by (simp add: audio_cut_def k slice2_stop_def clip_index_def py_slice_stop_def)
  with c show ?thesis by simp
qed


subsection \<open>The shift and the windows on the other inputs\<close>

text \<open>
  A shift of at least one sample takes that many samples from both tensors. The brain
  windows of a Gwilliams2022 recording number \<open>L div W\<close> unless \<open>W\<close> divides \<open>L\<close>, where
  there is none. In \<open>Brennan2018Dataset.batchfy\<close>, when \<open>W\<close> divides \<open>L\<close>, the windows of a
  subject and a channel laid end to end are the row they were cut from.
\<close>

lemma gw_brain_windows_count:
  assumes "shape2 X = (C, L)" "0 < C" "0 < W"
  shows "\<exists>ws. gw_brain_windows (int W) X = Inr (if L mod W = 0 then 0 else L div W, ws)"
proof (cases "L mod W = 0")
  case True
  then have "int L mod int W = 0" by (simp flip: of_nat_mod)
  with assms True show ?thesis
    by (simp add: gw_brain_windows_def Let_def slice2_stop_def clip_index_def infer_dim_def)
next
  case False
  have m: "int L mod int W = int (L mod W)" by (simp add: of_nat_mod)
  have "int L + - int (L mod W) = int (L - L mod W)"
    by (simp add: of_nat_diff)
  then have "nat (int L + - int (L mod W)) = W * (L div W)"
    by (simp only: nat_int minus_mod_eq_mult_div)
  then have c: "clip_index (- int (L mod W)) L = W * (L div W)"
    using False by (simp add: clip_index_def)
  from assms False show ?thesis
    by (simp add: gw_brain_windows_def Let_def slice2_stop_def m c infer_dim_def
        del: of_nat_mod)
qed

lemma concat_windows:
  "concat (windows W xs) = take (length xs div W * W) xs"
proof -
  have "concat (map (\<lambda>k. take W (drop (k * W) xs)) [0..<n]) = take (n * W) xs" for n
  proof (induction n)
    case 0
    then show ?case by simp
  next
    case (Suc n)
    have "take (n * W) xs @ take W (drop (n * W) xs) = take (n * W + W) xs"
      by (simp add: take_add)
    with Suc show ?case by (simp add: add.commute)
  qed
  then show ?thesis by (simp add: windows_def)
qed

lemma nth_concat_blocks:
  "(\<And>x. x \<in> set xs \<Longrightarrow> length (F x) = n) \<Longrightarrow> s < length xs \<Longrightarrow> j < n \<Longrightarrow>
   concat (map F xs) ! (s * n + j) = F (xs ! s) ! j"
proof (induction xs arbitrary: s)
  case Nil
  then show ?case by simp
next
  case (Cons x xs)
  show ?case
  proof (cases s)
    case 0
    with Cons.prems show ?thesis by (simp add: nth_append)
  next
    case (Suc s')
    with Cons.prems have "concat (map F xs) ! (s' * n + j) = F (xs ! s') ! j"
      by (intro Cons.IH) simp_all
    with Suc Cons.prems show ?thesis by (simp add: nth_append add.assoc)
  qed
qed

lemma batchfy_round_trip:
  assumes wf: "wf3 X" and sh: "shape3 X = (S, C, L)" "shape2 Y = (E, L)"
    and pos: "0 < S" "0 < C" "0 < E" "0 < W" and dvd: "L mod W = 0"
    and res: "batchfy X Y (int W) = Inr (Xo, Yo, idxs)" and s: "s < S" and c: "c < C"
  shows "concat (map (\<lambda>j. Xo ! (s * (L div W) + j) ! c) [0..<L div W]) = data3 X ! s ! c"
proof -
  let ?n = "L div W"
  let ?F = "\<lambda>m. permute102 ?n (map (\<lambda>r. windows W (py_slice_stop (int W * int ?n) r)) m)"
  from wf sh have lenS: "length (data3 X) = S"
    and lenC: "\<And>m. m \<in> set (data3 X) \<Longrightarrow> length m = C"
    and lenL: "\<And>m r. m \<in> set (data3 X) \<Longrightarrow> r \<in> set m \<Longrightarrow> length r = L"
    by (auto simp: wf3_def list_all_iff)
  let ?m = "data3 X ! s"
  let ?row = "?m ! c"
  have m_in: "?m \<in> set (data3 X)" using s lenS by simp
  have c_lt: "c < length ?m" using lenC [OF m_in] c by simp
  have row_len: "length ?row = L" using lenL [OF m_in] c_lt by simp
  have Wn: "W * ?n = L" using dvd by (metis add.right_neutral mult_div_mod_eq)
  have sl: "py_slice_stop (int W * int ?n) ?row = ?row"
    using row_len Wn by (simp add: py_slice_stop_def clip_index_def flip: of_nat_mult)
  have Xo: "Xo = concat (map ?F (data3 X))"
    using res batchfy_result [OF sh pos] by simp
  have nth: "Xo ! (s * ?n + j) ! c = windows W ?row ! j" if "j < ?n" for j
  proof -
    have "Xo ! (s * ?n + j) = ?F ?m ! j"
      unfolding Xo using s lenS that
      by (intro nth_concat_blocks) (simp_all add: length_permute102)
    also have "\<dots> = map (\<lambda>row. row ! j) (map (\<lambda>r. windows W (py_slice_stop (int W * int ?n) r)) ?m)"
      using that by (simp add: permute102_def)
    finally show ?thesis using c_lt sl by simp
  qed
  have lw: "length (windows W ?row) = ?n" by (simp add: length_windows row_len)
  have "map (\<lambda>j. Xo ! (s * ?n + j) ! c) [0..<?n] = map (\<lambda>j. windows W ?row ! j) [0..<?n]"
    using nth by simp
  also have "\<dots> = windows W ?row"
    using lw by (metis map_nth)
  finally have "concat (map (\<lambda>j. Xo ! (s * ?n + j) ! c) [0..<?n]) = concat (windows W ?row)"
    by simp
  also have "\<dots> = ?row"
    using row_len Wn by (simp add: concat_windows mult.commute)
  finally show ?thesis .
qed

lemma shift_brain_signal_lengths:
  assumes "shape3 X = (S, C, L)" "shape2 Y = (E, L)" "shift_samples srate shift = Inr (int s)"
    "1 \<le> s" "s < L"
  shows "\<exists>X' Y'. shift_brain_signal X Y srate shift = Inr (X', Y')
       \<and> shape3 X' = (S, C, L - s) \<and> shape2 Y' = (E, L - s)"
  using assms
  by (simp add: shift_brain_signal_def slice3_start_def slice2_stop_def clip_index_def
      nat_diff_distrib)

text \<open>
  At 100 Hz a shift of 290 ms is 28 samples: \<open>290 / 1000\<close> is the double
  \<open>0.29\<close> and \<open>100 * 0.29\<close> is \<open>28.999999999999996\<close>.
\<close>

lemma shift_samples_100_290: "shift_samples (Finite 100) 290 = Inr 28"
  by (simp add: shift_samples_def r64_values py_int_values)

end
